theory Spec2Isabelle
  imports Complex_Main "HOL-Library.Multiset"
begin

section \<open>Logistic regression by mini-batch gradient descent (logistic\_regression.py)\<close>

text \<open>
  The embedding follows the class \<open>LogisticRegression\<close> of \<open>logistic_regression.py\<close> and
  the class \<open>CustomDataset\<close> of \<open>data_torch.py\<close>.

  Numbers: a Python float is a real number here. Rounding, overflow to \<open>inf\<close> and \<open>nan\<close>
  are outside the model; the one place where numpy produces \<open>nan\<close> from exact inputs (the
  mean of an empty array) ends the modelled run with \<open>NotANumber\<close>.

  Arrays: a two-dimensional array is a record of its column count and its rows, an
  array of shape \<open>(k, 1)\<close> (logits, labels of a batch, the weights, the bias) is the list
  of its \<open>k\<close> entries. The two arrays the program updates in place, \<open>self._w\<close> and
  \<open>self._b\<close>, live in a heap (a function from addresses to arrays, with the next free
  address) and the object holds references to them. The other arrays are never
  written to after their creation and are plain values.

  A method is a function from the world before the call to the value it returns, or the
  exception it raises, and the world after the call.
\<close>

subsection \<open>Errors, arrays and the world\<close>

datatype error =
  AttributeError | IndexError | TypeError | ValueError | ZeroDivisionError | NotANumber

record ndarray =
  ncols :: nat
  rows :: "real list list"

definition shape0 :: "ndarray \<Rightarrow> nat" where
  "shape0 X = length (rows X)"

definition shape1 :: "ndarray \<Rightarrow> nat" where
  "shape1 X = ncols X"

text \<open>numpy arrays are rectangular; \<open>rect\<close> is that invariant of the representation.\<close>

definition rect :: "ndarray \<Rightarrow> bool" where
  "rect X = list_all (\<lambda>r. length r = ncols X) (rows X)"

record 'g world =
  self_batch_size :: int
  self_lr :: real
  self_n_epochs :: int
  self_X_train :: "ndarray option"
  self_y_train :: "real list option"
  self_n_examples :: "nat option"
  self_n_inputs :: "nat option"
  self_w :: "nat option"
  self_b :: "nat option"
  self_cross_entropy :: "real list option"
  heap :: "nat \<Rightarrow> real list"
  heap_next :: nat
  stdout :: "(nat \<times> real) list"
  py_random :: 'g
  np_random :: 'g

text \<open>
  \<^verbatim>\<open>
    def __init__(self, batch_size=64, lr=0.01, n_epochs=1000):
        self._batch_size = batch_size
        self._lr = lr
        self._n_epochs = n_epochs
  \<close>
  A new object in a world with an empty heap and nothing printed; the other attributes
  do not exist yet.
\<close>

definition new_LogisticRegression :: "int \<Rightarrow> real \<Rightarrow> int \<Rightarrow> 'g \<Rightarrow> 'g \<Rightarrow> 'g world" where
  "new_LogisticRegression batch_size lr n_epochs g g' =
     \<lparr>self_batch_size = batch_size, self_lr = lr, self_n_epochs = n_epochs,
      self_X_train = None, self_y_train = None, self_n_examples = None, self_n_inputs = None,
      self_w = None, self_b = None, self_cross_entropy = None,
      heap = (\<lambda>_. []), heap_next = 0, stdout = [], py_random = g, np_random = g'\<rparr>"

type_synonym ('g, 'a) py_method = "'g world \<Rightarrow> (error + 'a) \<times> 'g world"

definition returnM :: "'a \<Rightarrow> ('g, 'a) py_method" where
  "returnM x s = (Inr x, s)"

definition raise :: "error \<Rightarrow> ('g, 'a) py_method" where
  "raise e s = (Inl e, s)"

definition bindM :: "('g, 'a) py_method \<Rightarrow> ('a \<Rightarrow> ('g, 'b) py_method) \<Rightarrow> ('g, 'b) py_method" where
  "bindM m f s = (case m s of (Inl e, s') \<Rightarrow> (Inl e, s') | (Inr x, s') \<Rightarrow> f x s')"

definition lift :: "error + 'a \<Rightarrow> ('g, 'a) py_method" where
  "lift r s = (r, s)"

text \<open>Reading an attribute that was never assigned raises \<open>AttributeError\<close>.\<close>

definition attr :: "('g world \<Rightarrow> 'a option) \<Rightarrow> ('g, 'a) py_method" where
  "attr field s = (case field s of None \<Rightarrow> (Inl AttributeError, s) | Some v \<Rightarrow> (Inr v, s))"

text \<open>A \<open>for\<close> loop over a finite sequence, with the local variables it updates.\<close>

primrec for_each :: "'a list \<Rightarrow> ('a \<Rightarrow> 'acc \<Rightarrow> ('g, 'acc) py_method) \<Rightarrow> 'acc \<Rightarrow> ('g, 'acc) py_method" where
  "for_each [] body acc s = (Inr acc, s)"
| "for_each (x # xs) body acc s =
     (case body x acc s of
        (Inl e, s') \<Rightarrow> (Inl e, s')
      | (Inr acc', s') \<Rightarrow> for_each xs body acc' s')"

subsection \<open>numpy operations\<close>

text \<open>
  An elementwise binary operation on two arrays of shapes \<open>(k, 1)\<close> and \<open>(l, 1)\<close>:
  equal lengths combine entry by entry, a length of one is broadcast, anything else is
  numpy's \<open>ValueError\<close>.
\<close>

definition bc2 :: "(real \<Rightarrow> real \<Rightarrow> real) \<Rightarrow> real list \<Rightarrow> real list \<Rightarrow> error + real list" where
  "bc2 f u v =
     (if length u = length v then Inr (map2 f u v)
      else if length v = 1 then Inr (map (\<lambda>a. f a (hd v)) u)
      else if length u = 1 then Inr (map (f (hd u)) v)
      else Inl ValueError)"

definition dot :: "real list \<Rightarrow> real list \<Rightarrow> real" where
  "dot r v = sum_list (map2 (*) r v)"

text \<open>\<open>np.matmul(X, v)\<close> for \<open>X\<close> of shape \<open>(m, n)\<close> and \<open>v\<close> of shape \<open>(k, 1)\<close>.\<close>

definition matmul :: "ndarray \<Rightarrow> real list \<Rightarrow> error + real list" where
  "matmul X v = (if shape1 X = length v then Inr (map (\<lambda>r. dot r v) (rows X)) else Inl ValueError)"

text \<open>\<open>X.T\<close>.\<close>

definition transpose_nd :: "ndarray \<Rightarrow> ndarray" where
  "transpose_nd X =
     \<lparr>ncols = length (rows X), rows = map (\<lambda>j. map (\<lambda>r. r ! j) (rows X)) [0..<ncols X]\<rparr>"

text \<open>\<open>np.mean\<close>; of an empty array numpy returns \<open>nan\<close>.\<close>

definition np_mean :: "real list \<Rightarrow> error + real" where
  "np_mean xs = (if xs = [] then Inl NotANumber else Inr (sum_list xs / real (length xs)))"

text \<open>
  \<open>X.take(idx, axis=0)\<close> and \<open>X[idx]\<close> for a list of indices: the rows at these indices,
  \<open>IndexError\<close> when one is out of bounds.
\<close>

definition ndarray_take :: "ndarray \<Rightarrow> nat list \<Rightarrow> error + ndarray" where
  "ndarray_take X idx =
     (if list_all (\<lambda>i. i < shape0 X) idx
      then Inr \<lparr>ncols = ncols X, rows = map (\<lambda>i. rows X ! i) idx\<rparr>
      else Inl IndexError)"

definition vector_take :: "real list \<Rightarrow> nat list \<Rightarrow> error + real list" where
  "vector_take y idx =
     (if list_all (\<lambda>i. i < length y) idx then Inr (map (\<lambda>i. y ! i) idx) else Inl IndexError)"

subsection \<open>The stabilised sigmoid and loss\<close>

text \<open>
  \<^verbatim>\<open>
    def _sigmoid(self, logit):
        logit_max = np.maximum(0, logit)
        logit_stable = logit - logit_max
        return np.exp(logit_stable) / (np.exp(-logit_max) + np.exp(logit_stable))
  \<close>
  All arrays have the shape of \<open>logit\<close>, so no operation can fail.
\<close>

definition sigmoid :: "real list \<Rightarrow> real list" where
  "sigmoid logit =
     (let logit_max = map (max 0) logit;
          logit_stable = map2 (-) logit logit_max
      in map2 (/) (map exp logit_stable)
                  (map2 (+) (map exp (map uminus logit_max)) (map exp logit_stable)))"

text \<open>The sigmoid as the docstring and the specification write it: \<open>1 / (1 + exp(-z))\<close>.\<close>

definition naive_sigmoid :: "real \<Rightarrow> real" where
  "naive_sigmoid z = 1 / (1 + exp (- z))"

text \<open>
  \<^verbatim>\<open>
    def _loss(self, y, logit):
        logit_max = np.maximum(0, logit)
        logit_stable = logit - logit_max
        logsumexp_stable = logit_max + np.log(np.exp(-logit_max) + np.exp(logit_stable))
        self._cross_entropy = -(y * (logit - logsumexp_stable) + (1 - y) * (-logsumexp_stable))
        return np.mean(self._cross_entropy)
  \<close>
  The labels \<open>y\<close> come from the caller, so the two products broadcast and can fail.
\<close>

definition loss :: "real list \<Rightarrow> real list \<Rightarrow> ('g, real) py_method" where
  "loss y logit =
     (let logit_max = map (max 0) logit;
          logit_stable = map2 (-) logit logit_max;
          logsumexp_stable =
            map2 (+) logit_max
              (map ln (map2 (+) (map exp (map uminus logit_max)) (map exp logit_stable)))
      in bindM (lift (bc2 (*) y (map2 (-) logit logsumexp_stable))) (\<lambda>pos.
         bindM (lift (bc2 (*) (map (\<lambda>v. 1 - v) y) (map uminus logsumexp_stable))) (\<lambda>neg.
         bindM (lift (bc2 (+) pos neg)) (\<lambda>total.
         bindM (\<lambda>s. (Inr (), s\<lparr>self_cross_entropy := Some (map uminus total)\<rparr>)) (\<lambda>_.
         bindM (attr self_cross_entropy) (\<lambda>ce.
         lift (np_mean ce)))))))"

text \<open>What \<open>_loss\<close> evaluates for one label and one logit.\<close>

definition stable_loss :: "real \<Rightarrow> real \<Rightarrow> real" where
  "stable_loss y z =
     - (y * (z - (max 0 z + ln (exp (- max 0 z) + exp (z - max 0 z))))
        + (1 - y) * (- (max 0 z + ln (exp (- max 0 z) + exp (z - max 0 z)))))"

text \<open>
  The binary cross entropy of one example as the specification writes it, from the naive
  sigmoid.
\<close>

definition binary_cross_entropy :: "real \<Rightarrow> real \<Rightarrow> real" where
  "binary_cross_entropy y z =
     - (y * ln (naive_sigmoid z) + (1 - y) * ln (1 - naive_sigmoid z))"

subsection \<open>The heap of parameter arrays\<close>

definition deref :: "nat \<Rightarrow> ('g, real list) py_method" where
  "deref r s = (Inr (heap s r), s)"

text \<open>A new array object: \<open>np.zeros\<close> allocates, \<open>reshape\<close> is a view of it.\<close>

definition alloc :: "real list \<Rightarrow> ('g, nat) py_method" where
  "alloc v s = (Inr (heap_next s), s\<lparr>heap := (heap s)(heap_next s := v), heap_next := Suc (heap_next s)\<rparr>)"

text \<open>
  \<open>param[:] = rhs\<close>: the array object stays, its entries are overwritten; \<open>rhs\<close> must
  have the shape of the array or broadcast to it.
\<close>

definition assign_all :: "nat \<Rightarrow> real list \<Rightarrow> ('g, unit) py_method" where
  "assign_all r rhs s =
     (if length rhs = length (heap s r) then (Inr (), s\<lparr>heap := (heap s)(r := rhs)\<rparr>)
      else if length rhs = 1
        then (Inr (), s\<lparr>heap := (heap s)(r := replicate (length (heap s r)) (hd rhs))\<rparr>)
      else (Inl ValueError, s))"

definition np_zeros :: "nat \<Rightarrow> real list" where
  "np_zeros n = replicate n 0"

subsection \<open>The model and one gradient step\<close>

text \<open>
  \<^verbatim>\<open>
    def _create_weights(self):
        self._w = np.zeros(self._n_inputs).reshape(self._n_inputs, 1)
        self._b = np.zeros(1).reshape(1, 1)
  \<close>
\<close>

definition create_weights :: "('g, unit) py_method" where
  "create_weights =
     bindM (attr self_n_inputs) (\<lambda>n.
     bindM (alloc (np_zeros n)) (\<lambda>r.
     bindM (\<lambda>s. (Inr (), s\<lparr>self_w := Some r\<rparr>)) (\<lambda>_.
     bindM (alloc (np_zeros 1)) (\<lambda>r'.
     (\<lambda>s. (Inr (), s\<lparr>self_b := Some r'\<rparr>))))))"

text \<open>
  \<^verbatim>\<open>
    def _logit(self, X):
        return np.matmul(X, self._w) + self._b
    def _model(self, X):
        logit = self._logit(X)
        return self._sigmoid(logit)
  \<close>
\<close>

definition logit :: "ndarray \<Rightarrow> ('g, real list) py_method" where
  "logit X =
     bindM (attr self_w) (\<lambda>wr.
     bindM (deref wr) (\<lambda>wv.
     bindM (lift (matmul X wv)) (\<lambda>Xw.
     bindM (attr self_b) (\<lambda>br.
     bindM (deref br) (\<lambda>bv.
     lift (bc2 (+) Xw bv))))))"

definition model :: "ndarray \<Rightarrow> ('g, real list) py_method" where
  "model X = bindM (logit X) (\<lambda>z. returnM (sigmoid z))"

text \<open>
  \<^verbatim>\<open>
    def _optimize(self, X, y):
        m = X.shape[0]
        y_hat = self._model(X)
        dw = -1 / m * np.matmul(X.T, y - y_hat)
        db = -np.mean(y - y_hat)
        for (param, grad) in zip([self._w, self._b], [dw, db]):
            param[:] = param - self._lr * grad
  \<close>
  \<open>dw\<close> is an array and \<open>db\<close> a scalar. With true division, \<open>-1 / m\<close> raises
  \<open>ZeroDivisionError\<close> for a batch of no rows, before the difference is taken. The mean
  is taken of an array that \<open>matmul\<close> has accepted as having \<open>m\<close> entries.
\<close>

datatype grad = Array "real list" | Scalar real

fun scale :: "real \<Rightarrow> grad \<Rightarrow> grad" where
  "scale c (Array v) = Array (map ((*) c) v)"
| "scale c (Scalar x) = Scalar (c * x)"

fun minus_grad :: "real list \<Rightarrow> grad \<Rightarrow> error + real list" where
  "minus_grad p (Array v) = bc2 (-) p v"
| "minus_grad p (Scalar x) = Inr (map (\<lambda>a. a - x) p)"

definition update_param :: "nat \<times> grad \<Rightarrow> unit \<Rightarrow> ('g, unit) py_method" where
  "update_param pg u =
     (case pg of (param, grad) \<Rightarrow>
        bindM (deref param) (\<lambda>p.
        bindM (\<lambda>s. (Inr (self_lr s), s)) (\<lambda>lr.
        bindM (lift (minus_grad p (scale lr grad))) (\<lambda>rhs.
        assign_all param rhs))))"

definition optimize :: "ndarray \<Rightarrow> real list \<Rightarrow> ('g, unit) py_method" where
  "optimize X y =
     (let m = shape0 X in
      bindM (model X) (\<lambda>y_hat.
      if m = 0 then raise ZeroDivisionError
      else
        bindM (lift (bc2 (-) y y_hat)) (\<lambda>d.
        bindM (lift (matmul (transpose_nd X) d)) (\<lambda>Xtd.
        let dw = map ((*) (- 1 / real m)) Xtd in
        bindM (lift (bc2 (-) y y_hat)) (\<lambda>d'.
        bindM (lift (np_mean d')) (\<lambda>mu.
        let db = - mu in
        bindM (attr self_w) (\<lambda>wr.
        bindM (attr self_b) (\<lambda>br.
        for_each (zip [wr, br] [Array dw, Scalar db]) update_param ()))))))))"

subsection \<open>Batches\<close>

text \<open>
  \<open>range(i, n, step)\<close> for a positive step, by the iteration it performs.
\<close>

function range_from :: "nat \<Rightarrow> nat \<Rightarrow> nat \<Rightarrow> nat list" where
  "range_from i n step = (if 0 < step \<and> i < n then i # range_from (i + step) n step else [])"
  by pat_completeness auto
termination
  by (relation "measure (\<lambda>(i, n, step). n - i)") auto

declare range_from.simps [simp del]

text \<open>
  \<open>range(0, n, step)\<close>: a zero step is a \<open>ValueError\<close>, a negative one gives no
  element since \<open>n\<close> is not negative.
\<close>

definition py_range0 :: "nat \<Rightarrow> int \<Rightarrow> error + nat list" where
  "py_range0 n step =
     (if step = 0 then Inl ValueError
      else if step < 0 then Inr []
      else Inr (range_from 0 n (nat step)))"

text \<open>\<open>xs[i:j]\<close>, with Python's reading of negative and too large bounds.\<close>

definition py_slice :: "'a list \<Rightarrow> int \<Rightarrow> int \<Rightarrow> 'a list" where
  "py_slice xs i j =
     (let n = int (length xs);
          a = (if i < 0 then max 0 (i + n) else min i n);
          b = (if j < 0 then max 0 (j + n) else min j n)
      in take (nat (b - a)) (drop (nat a) xs))"

text \<open>
  \<^verbatim>\<open>
    def _fetch_batch(self):
        idx = list(range(self._n_examples))
        for i in range(0, self._n_examples, self._batch_size):
            idx_batch = idx[i:min(i + self._batch_size, self._n_examples)]
            yield (self._X_train.take(idx_batch, axis=0), self._y_train.take(idx_batch, axis=0))
  \<close>
  A generator: \<open>fetch_batch_start\<close> is what runs before the loop (the index list and
  the batch starts), \<open>fetch_batch_index\<close> the slice of one iteration and
  \<open>fetch_batch_yield\<close> the whole iteration up to its \<open>yield\<close>. \<open>fetch_batch\<close> is the
  generator run to its end, as the list of the pairs it yields;
  \<open>fetch_batch_indices\<close> lists the index slices of its iterations.
\<close>

definition fetch_batch_start :: "('g, nat list \<times> nat list) py_method" where
  "fetch_batch_start =
     bindM (attr self_n_examples) (\<lambda>n.
     let idx = [0..<n] in
     bindM (attr self_n_examples) (\<lambda>n'.
     bindM (\<lambda>s. (Inr (self_batch_size s), s)) (\<lambda>bs.
     bindM (lift (py_range0 n' bs)) (\<lambda>starts.
     returnM (idx, starts)))))"

definition fetch_batch_index :: "nat list \<Rightarrow> nat \<Rightarrow> ('g, nat list) py_method" where
  "fetch_batch_index idx i =
     bindM (\<lambda>s. (Inr (self_batch_size s), s)) (\<lambda>bs.
     bindM (attr self_n_examples) (\<lambda>n.
     returnM (py_slice idx (int i) (min (int i + bs) (int n)))))"

definition fetch_batch_yield :: "nat list \<Rightarrow> nat \<Rightarrow> ('g, ndarray \<times> real list) py_method" where
  "fetch_batch_yield idx i =
     bindM (fetch_batch_index idx i) (\<lambda>idx_batch.
     bindM (attr self_X_train) (\<lambda>X.
     bindM (lift (ndarray_take X idx_batch)) (\<lambda>X_b.
     bindM (attr self_y_train) (\<lambda>y.
     bindM (lift (vector_take y idx_batch)) (\<lambda>y_b.
     returnM (X_b, y_b))))))"

definition fetch_batch :: "('g, (ndarray \<times> real list) list) py_method" where
  "fetch_batch =
     bindM fetch_batch_start (\<lambda>(idx, starts).
     for_each starts (\<lambda>i yielded. bindM (fetch_batch_yield idx i) (\<lambda>b. returnM (yielded @ [b]))) [])"

definition fetch_batch_indices :: "('g, nat list list) py_method" where
  "fetch_batch_indices =
     bindM fetch_batch_start (\<lambda>(idx, starts).
     for_each starts (\<lambda>i slices. bindM (fetch_batch_index idx i) (\<lambda>b. returnM (slices @ [b]))) [])"

subsection \<open>Loading the data and fitting\<close>

text \<open>
  \<^verbatim>\<open>
    def get_dataset(self, X_train, y_train, shuffle=True):
        self._X_train = X_train
        self._y_train = y_train
        self._n_examples = self._X_train.shape[0]
        self._n_inputs = self._X_train.shape[1]
        if shuffle:
            idx = list(range(self._n_examples))
            random.shuffle(idx)
            self._X_train = self._X_train[idx]
            self._y_train = self._y_train[idx]
  \<close>
  \<open>random.shuffle\<close> belongs to Python's library: it is the parameter \<open>shuffle_fn\<close>, which
  maps the state of the generator of module \<open>random\<close> and a list to the shuffled list and
  the next state. The generator of \<open>np.random\<close>, which the module seeds with 71, is
  another one.
\<close>

definition random_shuffle :: "('g \<Rightarrow> nat list \<Rightarrow> nat list \<times> 'g) \<Rightarrow> nat list \<Rightarrow> ('g, nat list) py_method" where
  "random_shuffle shuffle_fn idx s =
     (case shuffle_fn (py_random s) idx of (idx', g') \<Rightarrow> (Inr idx', s\<lparr>py_random := g'\<rparr>))"

definition get_dataset ::
  "('g \<Rightarrow> nat list \<Rightarrow> nat list \<times> 'g) \<Rightarrow> ndarray \<Rightarrow> real list \<Rightarrow> bool \<Rightarrow> ('g, unit) py_method" where
  "get_dataset shuffle_fn X y shuffle =
     bindM (\<lambda>s. (Inr (), s\<lparr>self_X_train := Some X\<rparr>)) (\<lambda>_.
     bindM (\<lambda>s. (Inr (), s\<lparr>self_y_train := Some y\<rparr>)) (\<lambda>_.
     bindM (attr self_X_train) (\<lambda>X0.
     bindM (\<lambda>s. (Inr (), s\<lparr>self_n_examples := Some (shape0 X0)\<rparr>)) (\<lambda>_.
     bindM (attr self_X_train) (\<lambda>X1.
     bindM (\<lambda>s. (Inr (), s\<lparr>self_n_inputs := Some (shape1 X1)\<rparr>)) (\<lambda>_.
     if shuffle then
       bindM (attr self_n_examples) (\<lambda>n.
       bindM (random_shuffle shuffle_fn [0..<n]) (\<lambda>idx.
       bindM (attr self_X_train) (\<lambda>X2.
       bindM (lift (ndarray_take X2 idx)) (\<lambda>X'.
       bindM (\<lambda>s. (Inr (), s\<lparr>self_X_train := Some X'\<rparr>)) (\<lambda>_.
       bindM (attr self_y_train) (\<lambda>y2.
       bindM (lift (vector_take y2 idx)) (\<lambda>y'.
       (\<lambda>s. (Inr (), s\<lparr>self_y_train := Some y'\<rparr>)))))))))
     else returnM ()))))))"

text \<open>
  \<^verbatim>\<open>
    def fit(self):
        self._create_weights()
        for epoch in range(self._n_epochs):
            total_loss = 0
            for X_train_b, y_train_b in self._fetch_batch():
                y_train_b = y_train_b.reshape((y_train_b.shape[0], -1))
                self._optimize(X_train_b, y_train_b)
                train_loss = self._loss(y_train_b, self._logit(X_train_b))
                total_loss += train_loss * X_train_b.shape[0]
            if epoch % 100 == 0:
                print('epoch {0}: training loss {1}'.format(epoch, total_loss))
        return self
  \<close>
  \<open>reshape((k, -1))\<close> of \<open>k\<close> labels is the column of the labels; numpy refuses it for
  \<open>k = 0\<close>. A printed line is the pair of the epoch and the loss it shows.
\<close>

definition reshape_column :: "real list \<Rightarrow> error + real list" where
  "reshape_column y = (if y = [] then Inl ValueError else Inr y)"

definition print_loss :: "nat \<Rightarrow> real \<Rightarrow> ('g, unit) py_method" where
  "print_loss epoch total_loss s = (Inr (), s\<lparr>stdout := stdout s @ [(epoch, total_loss)]\<rparr>)"

definition fit_batch :: "ndarray \<Rightarrow> real list \<Rightarrow> real \<Rightarrow> ('g, real) py_method" where
  "fit_batch X_train_b y_train_b total_loss =
     bindM (lift (reshape_column y_train_b)) (\<lambda>y_train_b.
     bindM (optimize X_train_b y_train_b) (\<lambda>_.
     bindM (logit X_train_b) (\<lambda>z.
     bindM (loss y_train_b z) (\<lambda>train_loss.
     returnM (total_loss + train_loss * real (shape0 X_train_b))))))"

definition fit_epoch :: "nat \<Rightarrow> unit \<Rightarrow> ('g, unit) py_method" where
  "fit_epoch epoch u =
     bindM fetch_batch_start (\<lambda>(idx, starts).
     bindM (for_each starts
              (\<lambda>i total_loss. bindM (fetch_batch_yield idx i)
                 (\<lambda>(X_train_b, y_train_b). fit_batch X_train_b y_train_b total_loss)) 0)
       (\<lambda>total_loss.
     if epoch mod 100 = 0 then print_loss epoch total_loss else returnM ()))"

definition fit :: "('g, unit) py_method" where
  "fit =
     bindM create_weights (\<lambda>_.
     bindM (\<lambda>s. (Inr (self_n_epochs s), s)) (\<lambda>n_epochs.
     for_each [0..<nat n_epochs] fit_epoch ()))"

text \<open>
  \<^verbatim>\<open>
    def get_coeff(self):
        return self._b, self._w.reshape((-1,))
    def predict(self, X_test):
        return self._model(X_test).reshape((-1,))
  \<close>
\<close>

definition get_coeff :: "('g, real list \<times> real list) py_method" where
  "get_coeff =
     bindM (attr self_b) (\<lambda>br.
     bindM (deref br) (\<lambda>bv.
     bindM (attr self_w) (\<lambda>wr.
     bindM (deref wr) (\<lambda>wv.
     returnM (bv, wv)))))"

definition predict :: "ndarray \<Rightarrow> ('g, real list) py_method" where
  "predict X_test = bindM (model X_test) (\<lambda>p. returnM p)"

section \<open>The dataset adapter (data\_torch.py)\<close>

text \<open>
  \<^verbatim>\<open>
    def __getitem__(self, idx) -> Tuple[Tensor, float]:
        example = self.examples[idx, :]
        label = self.labels[idx]
        if self.transform:
            example = self.transform(example)
        if self.target_transform:
            label = self.target_transform(self)
        return example, label
  \<close>
  A transform is any Python object, or \<open>None\<close>. \<open>if self.transform:\<close> tests its truth
  value: \<open>None\<close> is false, a function is true, and an object whose class defines
  \<open>__bool__\<close> or \<open>__len__\<close> is whatever these say; \<open>truthy\<close> is that value. \<open>call\<close> is
  what calling the object does: it returns a value or raises (\<open>TypeError\<close> when the
  object is not callable). \<open>py_value\<close> is what the label transform can be given here: a
  label, or a dataset object, which stands for its data attributes \<open>examples\<close> and
  \<open>labels\<close>. An integer index counts from the end when negative and raises
  \<open>IndexError\<close> out of bounds.
\<close>

datatype py_value = Label real | DatasetObject ndarray "real list"

record ('a, 'b) py_object =
  truthy :: bool
  call :: "'a \<Rightarrow> error + 'b"

record CustomDataset =
  examples :: ndarray
  labels :: "real list"
  transform :: "(real list, real list) py_object option"
  target_transform :: "(py_value, real) py_object option"

definition py_index :: "'a list \<Rightarrow> int \<Rightarrow> error + 'a" where
  "py_index xs i =
     (let n = int (length xs); j = (if i < 0 then n + i else i)
      in if 0 \<le> j \<and> j < n then Inr (xs ! nat j) else Inl IndexError)"

definition len :: "CustomDataset \<Rightarrow> nat" where
  "len self = length (labels self)"

text \<open>The truth value of an attribute that holds an object or \<open>None\<close>.\<close>

definition is_true :: "('a, 'b) py_object option \<Rightarrow> bool" where
  "is_true t = (case t of None \<Rightarrow> False | Some c \<Rightarrow> truthy c)"

text \<open>Calling an attribute; calling \<open>None\<close> is a \<open>TypeError\<close>.\<close>

definition py_call :: "('a, 'b) py_object option \<Rightarrow> 'a \<Rightarrow> error + 'b" where
  "py_call t x = (case t of None \<Rightarrow> Inl TypeError | Some c \<Rightarrow> call c x)"

definition getitem :: "CustomDataset \<Rightarrow> int \<Rightarrow> error + (real list \<times> real)" where
  "getitem self idx =
     (case py_index (rows (examples self)) idx of
        Inl e \<Rightarrow> Inl e
      | Inr example \<Rightarrow>
          (case py_index (labels self) idx of
             Inl e \<Rightarrow> Inl e
           | Inr label \<Rightarrow>
               (case (if is_true (transform self) then py_call (transform self) example
                      else Inr example) of
                  Inl e \<Rightarrow> Inl e
                | Inr example \<Rightarrow>
                    (case (if is_true (target_transform self)
                           then py_call (target_transform self)
                                  (DatasetObject (examples self) (labels self))
                           else Inr label) of
                       Inl e \<Rightarrow> Inl e
                     | Inr label \<Rightarrow> Inr (example, label)))))"

section \<open>Vocabulary of the properties\<close>

text \<open>
  A gradient step is in place when the world after it is the world before it with
  another heap, the heap differs only at the arrays \<open>self._w\<close> and \<open>self._b\<close> refer
  to, and every array has kept its length.
\<close>

definition in_place :: "'g world \<Rightarrow> 'g world \<Rightarrow> bool" where
  "in_place s s' \<longleftrightarrow>
     s' = s\<lparr>heap := heap s'\<rparr>
     \<and> (\<forall>a. Some a \<noteq> self_w s \<and> Some a \<noteq> self_b s \<longrightarrow> heap s' a = heap s a)
     \<and> (\<forall>a. length (heap s' a) = length (heap s a))"

text \<open>
  Training keeps the parameter arrays: the object refers to the same two arrays, no
  array is allocated, no array changes its length and no other array is written to.
\<close>

definition same_arrays :: "'g world \<Rightarrow> 'g world \<Rightarrow> bool" where
  "same_arrays s s' \<longleftrightarrow>
     self_w s' = self_w s \<and> self_b s' = self_b s \<and> heap_next s' = heap_next s
     \<and> (\<forall>a. length (heap s' a) = length (heap s a))
     \<and> (\<forall>a. Some a \<noteq> self_w s \<and> Some a \<noteq> self_b s \<longrightarrow> heap s' a = heap s a)"

text \<open>Column \<open>j\<close> of a matrix, the \<open>j\<close>-th row of \<open>X.T\<close>.\<close>

definition column :: "ndarray \<Rightarrow> nat \<Rightarrow> real list" where
  "column X j = map (\<lambda>r. r ! j) (rows X)"

text \<open>
  The mean cross-entropy loss of the model with weights \<open>w\<close> and bias \<open>b\<close> on the
  batch \<open>(X, y)\<close>, as a function of the parameters.
\<close>

definition mean_cross_entropy :: "ndarray \<Rightarrow> real list \<Rightarrow> real list \<Rightarrow> real \<Rightarrow> real" where
  "mean_cross_entropy X y w b =
     sum_list (map2 binary_cross_entropy y (map (\<lambda>r. dot r w + b) (rows X))) / real (shape0 X)"

text \<open>
  A method frames a relation when the relation holds between the world before and the
  world after every call, however the call ends.
\<close>

definition frames :: "('s \<Rightarrow> 's \<Rightarrow> bool) \<Rightarrow> ('s \<Rightarrow> 'r \<times> 's) \<Rightarrow> bool" where
  "frames R m \<longleftrightarrow> (\<forall>s. R s (snd (m s)))"

definition preorder_rel :: "('s \<Rightarrow> 's \<Rightarrow> bool) \<Rightarrow> bool" where
  "preorder_rel R \<longleftrightarrow> (\<forall>s. R s s) \<and> (\<forall>s t u. R s t \<longrightarrow> R t u \<longrightarrow> R s u)"

text \<open>
  The hyperparameters, the stored training data and the two random generators: what
  training reads and never writes.
\<close>

definition config :: "'g world \<Rightarrow> int \<times> real \<times> int \<times> ndarray option \<times> real list option \<times> nat option \<times> nat option \<times> 'g \<times> 'g" where
  "config s = (self_batch_size s, self_lr s, self_n_epochs s, self_X_train s, self_y_train s,
               self_n_examples s, self_n_inputs s, py_random s, np_random s)"

definition same_config :: "'g world \<Rightarrow> 'g world \<Rightarrow> bool" where
  "same_config s s' \<longleftrightarrow> config s' = config s"

text \<open>
  The training data is loaded: the attributes \<open>get_dataset\<close> sets hold a matrix and at
  least as many labels as it has rows, and the batch size is positive.
\<close>

definition training_data :: "ndarray \<Rightarrow> real list \<Rightarrow> 'g world \<Rightarrow> bool" where
  "training_data X y s \<longleftrightarrow>
     self_X_train s = Some X \<and> self_y_train s = Some y
     \<and> self_n_examples s = Some (shape0 X) \<and> self_n_inputs s = Some (shape1 X)
     \<and> shape0 X \<le> length y \<and> 0 < self_batch_size s"

text \<open>
  The parameters fit the data: \<open>self._w\<close> and \<open>self._b\<close> refer to two different arrays of
  \<open>n_inputs\<close> entries and of one entry.
\<close>

definition params_ready :: "'g world \<Rightarrow> bool" where
  "params_ready s \<longleftrightarrow>
     (\<exists>wr br. self_w s = Some wr \<and> self_b s = Some br \<and> wr \<noteq> br
         \<and> Some (length (heap s wr)) = self_n_inputs s \<and> length (heap s br) = 1)"

text \<open>The batch that starts at row \<open>i\<close>: the rows and labels \<open>i, ..., min(i + bs, n) - 1\<close>.\<close>

definition batch_at :: "ndarray \<Rightarrow> real list \<Rightarrow> nat \<Rightarrow> nat \<Rightarrow> ndarray \<times> real list" where
  "batch_at X y bs i =
     (\<lparr>ncols = ncols X, rows = map (\<lambda>i. rows X ! i) [i..<min (i + bs) (shape0 X)]\<rparr>,
      map (\<lambda>i. y ! i) [i..<min (i + bs) (shape0 X)])"

section \<open>Properties\<close>

subsection \<open>Properties of the stabilised sigmoid\<close>

lemma map2_same: "map2 f (map g xs) (map h xs) = map (\<lambda>x. f (g x) (h x)) xs"
  by (induction xs) simp_all

lemma map2_same_left: "map2 f xs (map h xs) = map (\<lambda>x. f x (h x)) xs"
  by (induction xs) simp_all

lemma sigmoid_pointwise:
  "sigmoid zs = map (\<lambda>z. exp (z - max 0 z) / (exp (- max 0 z) + exp (z - max 0 z))) zs"
  by (induction zs) (simp_all add: sigmoid_def Let_def)

lemma stable_eq_naive:
  "exp (z - max 0 z) / (exp (- max 0 z) + exp (z - max 0 z)) = naive_sigmoid (z::real)"
proof (cases "0 \<le> z")
  case True
  then have "max 0 z = z" by simp
  then show ?thesis by (simp add: naive_sigmoid_def add.commute)
next
  case False
  then have m: "max 0 z = 0" by simp
  have "exp z * (1 + exp (- z)) = 1 + exp z"
    by (simp add: distrib_left exp_minus)
  moreover have "1 + exp z \<noteq> 0" "1 + exp (- z) \<noteq> 0"
    using exp_gt_zero [of z] exp_gt_zero [of "- z"] by linarith+
  ultimately have "exp z / (1 + exp z) = 1 / (1 + exp (- z))"
    by (simp add: field_simps)
  with m show ?thesis by (simp add: naive_sigmoid_def)
qed

lemma naive_sigmoid_range: "0 < naive_sigmoid z \<and> naive_sigmoid z < 1"
proof -
  define d where "d = 1 + exp (- z)"
  have "0 < exp (- z)" by simp
  then have d: "1 < d" unfolding d_def by linarith
  then have "0 < 1 / d" "1 / d < 1" by simp_all
  then show ?thesis by (simp add: naive_sigmoid_def d_def)
qed

lemma sigmoid_naive: "sigmoid zs = map naive_sigmoid zs"
  by (simp add: sigmoid_pointwise stable_eq_naive)

text \<open>
  In exact real arithmetic the stabilised quotient equals \<open>1 / (1 + exp(-z))\<close> and lies
  strictly between 0 and 1. This is a fact of the real-number expression only: it says
  nothing of rounding, overflow or underflow.
\<close>

lemma sigmoid_over_reals:
  "sigmoid zs = map (\<lambda>z. 1 / (1 + exp (- z))) zs
   \<and> (\<forall>p \<in> set (sigmoid zs). 0 < p \<and> p < 1)
   \<and> (\<forall>z \<in> set zs. z - max 0 z \<le> 0 \<and> - max 0 z \<le> 0
        \<and> 1 \<le> exp (- max 0 z) + exp (z - max 0 z)
        \<and> exp (- max 0 z) + exp (z - max 0 z) \<le> 2)"
proof (intro conjI ballI)
  show "sigmoid zs = map (\<lambda>z. 1 / (1 + exp (- z))) zs"
    using sigmoid_naive [of zs] by (simp add: naive_sigmoid_def [abs_def])
next
  fix p assume "p \<in> set (sigmoid zs)"
  then obtain z where "p = naive_sigmoid z" by (auto simp: sigmoid_naive)
  then show "0 < p" "p < 1" using naive_sigmoid_range [of z] by simp_all
next
  fix z :: real assume "z \<in> set zs"
  show "z - max 0 z \<le> 0" "- max 0 z \<le> 0" by simp_all
  show "1 \<le> exp (- max 0 z) + exp (z - max 0 z)"
  proof (cases "0 \<le> z")
    case True
    then have "exp (z - max 0 z) = 1" by simp
    moreover have "0 < exp (- max 0 z)" by simp
    ultimately show ?thesis by linarith
  next
    case False
    then have "exp (- max 0 z) = 1" by simp
    moreover have "0 < exp (z - max 0 z)" by simp
    ultimately show ?thesis by linarith
  qed
  have "exp (- max 0 z) \<le> 1" "exp (z - max 0 z) \<le> 1" by simp_all
  then show "exp (- max 0 z) + exp (z - max 0 z) \<le> 2" by linarith
qed

subsection \<open>Properties of the stabilised loss\<close>

lemma bc2_same_length: "length u = length v \<Longrightarrow> bc2 f u v = Inr (map2 f u v)"
  by (simp add: bc2_def)

lemma ln_one_plus_exp_minus: "ln (1 + exp (- z)) = ln (1 + exp z) - (z::real)"
proof -
  have pos: "0 < 1 + exp z" by (simp add: add_pos_pos)
  have "1 + exp (- z) = (1 + exp z) / exp z"
    by (simp add: exp_minus divide_simps)
  moreover have "ln ((1 + exp z) / exp z) = ln (1 + exp z) - ln (exp z)"
    by (rule ln_divide_pos) (use pos in simp_all)
  ultimately show ?thesis by simp
qed

lemma logsumexp_stable_eq:
  "max 0 z + ln (exp (- max 0 z) + exp (z - max 0 z)) = ln (1 + exp (z::real))"
proof (cases "0 \<le> z")
  case True
  then have m: "max 0 z = z" by simp
  have "exp (- z) + 1 = 1 + exp (- z)" by simp
  then have "ln (exp (- z) + 1) = ln (1 + exp z) - z"
    by (simp only: ln_one_plus_exp_minus)
  then show ?thesis unfolding m by simp
next
  case False
  then have "max 0 z = 0" by simp
  then show ?thesis by simp
qed

lemma ln_naive_sigmoid: "ln (naive_sigmoid z) = z - ln (1 + exp z)"
proof -
  have pos: "0 < 1 + exp z" by (simp add: add_pos_pos)
  have "naive_sigmoid z = exp z / (1 + exp z)"
    using pos by (simp add: naive_sigmoid_def exp_minus field_simps)
  then show ?thesis using pos by (simp add: ln_div)
qed

lemma ln_one_minus_naive_sigmoid: "ln (1 - naive_sigmoid z) = - ln (1 + exp z)"
proof -
  have pos: "0 < 1 + exp z" by (simp add: add_pos_pos)
  have "1 - naive_sigmoid z = 1 / (1 + exp z)"
    using pos by (simp add: naive_sigmoid_def exp_minus field_simps)
  then show ?thesis using pos by (simp add: ln_div)
qed

lemma stable_loss_eq: "stable_loss y z = binary_cross_entropy y z"
  by (simp only: stable_loss_def binary_cross_entropy_def logsumexp_stable_eq
      ln_naive_sigmoid ln_one_minus_naive_sigmoid)

lemma bce_pos: "y = 0 \<or> y = 1 \<Longrightarrow> 0 < binary_cross_entropy y z"
proof -
  assume y: "y = 0 \<or> y = 1"
  have a: "0 < ln (1 + exp z)" by (simp add: ln_gt_zero)
  have "0 < ln (1 + exp (- z))" by (simp add: ln_gt_zero)
  then have b: "0 < ln (1 + exp z) - z" by (simp add: ln_one_plus_exp_minus)
  from y a b show ?thesis
    by (auto simp: binary_cross_entropy_def ln_naive_sigmoid ln_one_minus_naive_sigmoid)
qed

lemma cross_entropy_array:
  "length y = length zs \<Longrightarrow>
   map uminus (map2 (+)
     (map2 (*) y (map2 (-) zs (map2 (+) (map (max 0) zs)
        (map ln (map2 (+) (map exp (map uminus (map (max 0) zs))) (map exp (map2 (-) zs (map (max 0) zs))))))))
     (map2 (*) (map (\<lambda>v. 1 - v) y) (map uminus (map2 (+) (map (max 0) zs)
        (map ln (map2 (+) (map exp (map uminus (map (max 0) zs))) (map exp (map2 (-) zs (map (max 0) zs)))))))))
   = map2 stable_loss y zs"
  by (induction y zs rule: list_induct2) (simp_all add: stable_loss_def)

lemma loss_result:
  assumes "length y = length zs"
  shows "loss y zs s =
    (np_mean (map2 binary_cross_entropy y zs), s\<lparr>self_cross_entropy := Some (map2 binary_cross_entropy y zs)\<rparr>)"
proof -
  have se: "stable_loss = binary_cross_entropy" by (intro ext) (rule stable_loss_eq)
  define ce where "ce = map uminus (map2 (+)
     (map2 (*) y (map2 (-) zs (map2 (+) (map (max 0) zs)
        (map ln (map2 (+) (map exp (map uminus (map (max 0) zs))) (map exp (map2 (-) zs (map (max 0) zs))))))))
     (map2 (*) (map (\<lambda>v. 1 - v) y) (map uminus (map2 (+) (map (max 0) zs)
        (map ln (map2 (+) (map exp (map uminus (map (max 0) zs))) (map exp (map2 (-) zs (map (max 0) zs)))))))))"
  have "loss y zs s = (np_mean ce, s\<lparr>self_cross_entropy := Some ce\<rparr>)"
    unfolding ce_def by (simp add: loss_def Let_def bindM_def lift_def attr_def bc2_def assms comp_def)
  moreover have "ce = map2 binary_cross_entropy y zs"
    unfolding ce_def using cross_entropy_array [OF assms] by (simp only: se)
  ultimately show ?thesis by simp
qed


text \<open>
  In exact real arithmetic, for labels in \<open>{0, 1}\<close> and as many logits, \<open>_loss\<close> stores the
  binary cross entropy \<open>-(y * log(sigmoid(z)) + (1 - y) * log(1 - sigmoid(z)))\<close> of every
  example and returns their mean. Again a fact of the real-number expression only.
\<close>

lemma loss_over_reals:
  assumes "length y = length zs" and "\<forall>v \<in> set y. v = 0 \<or> v = 1" and "zs \<noteq> []"
  shows "loss y zs s =
           (Inr (sum_list (map2 binary_cross_entropy y zs) / real (length zs)),
            s\<lparr>self_cross_entropy := Some (map2 binary_cross_entropy y zs)\<rparr>)
         \<and> (\<forall>c \<in> set (map2 binary_cross_entropy y zs). 0 < c)
         \<and> 0 \<le> sum_list (map2 binary_cross_entropy y zs) / real (length zs)"
proof -
  have ne: "map2 binary_cross_entropy y zs \<noteq> []"
    using assms(1,3) by (cases y; cases zs) simp_all
  have len: "length (map2 binary_cross_entropy y zs) = length zs"
    using assms(1) by simp
  have pos: "\<forall>c \<in> set (map2 binary_cross_entropy y zs). 0 < c"
  proof
    fix c assume "c \<in> set (map2 binary_cross_entropy y zs)"
    then obtain v z where "(v, z) \<in> set (zip y zs)" "c = binary_cross_entropy v z" by auto
    moreover from this have "v \<in> set y" by (auto dest: set_zip_leftD)
    ultimately show "0 < c" using assms(2) bce_pos by blast
  qed
  then have "0 \<le> sum_list (map2 binary_cross_entropy y zs)"
    by (intro sum_list_nonneg) (auto simp: less_imp_le)
  then have mean: "0 \<le> sum_list (map2 binary_cross_entropy y zs) / real (length zs)"
    by simp
  have "loss y zs s =
           (Inr (sum_list (map2 binary_cross_entropy y zs) / real (length zs)),
            s\<lparr>self_cross_entropy := Some (map2 binary_cross_entropy y zs)\<rparr>)"
    using ne len by (simp add: loss_result [OF assms(1)] np_mean_def)
  with pos mean show ?thesis by blast
qed

subsection \<open>Frames, in-place updates and the gradient step\<close>

lemmas method_defs = bindM_def returnM_def raise_def lift_def attr_def deref_def

lemma logit_frame: "snd (logit X s) = s"
  by (auto simp: logit_def method_defs split: option.splits sum.splits prod.splits)

lemma model_frame: "snd (model X s) = s"
  using logit_frame [of X s]
  by (auto simp: model_def method_defs split: option.splits sum.splits prod.splits)

text \<open>
  Claim C10. \<open>predict\<close>, and the \<open>_model\<close> and \<open>_logit\<close> calls it makes, leave the
  world as it was: the weights, the bias, the stored training arrays and everything
  else. This holds also when the call raises.
\<close>

theorem predict_leaves_state: 
  "snd (predict X_test s) = s \<and> snd (model X_test s) = s \<and> snd (logit X_test s) = s"
  using model_frame [of X_test s] logit_frame [of X_test s]
  by (auto simp: predict_def method_defs split: option.splits sum.splits prod.splits)

lemma in_place_refl: "in_place s s"
  by (simp add: in_place_def)

lemma in_place_fields:
  assumes "in_place s s'"
  shows "self_w s' = self_w s" "self_b s' = self_b s" "self_lr s' = self_lr s"
    "heap_next s' = heap_next s" "stdout s' = stdout s"
    "self_cross_entropy s' = self_cross_entropy s"
proof -
  from assms have e: "s' = s\<lparr>heap := heap s'\<rparr>" by (simp add: in_place_def)
  show "self_w s' = self_w s" by (subst e) simp
  show "self_b s' = self_b s" by (subst e) simp
  show "self_lr s' = self_lr s" by (subst e) simp
  show "heap_next s' = heap_next s" by (subst e) simp
  show "stdout s' = stdout s" by (subst e) simp
  show "self_cross_entropy s' = self_cross_entropy s" by (subst e) simp
qed

lemma in_place_trans:
  assumes "in_place s t" and "in_place t u"
  shows "in_place s u"
proof -
  from assms have e1: "t = s\<lparr>heap := heap t\<rparr>" and e2: "u = t\<lparr>heap := heap u\<rparr>"
    by (simp_all add: in_place_def)
  have "u = (s\<lparr>heap := heap t\<rparr>)\<lparr>heap := heap u\<rparr>" using e1 e2 by simp
  then have "u = s\<lparr>heap := heap u\<rparr>" by simp
  moreover have "\<forall>a. Some a \<noteq> self_w s \<and> Some a \<noteq> self_b s \<longrightarrow> heap u a = heap s a"
    using assms in_place_fields(1,2) [OF assms(1)] by (simp add: in_place_def)
  moreover have "\<forall>a. length (heap u a) = length (heap s a)"
    using assms by (simp add: in_place_def)
  ultimately show ?thesis by (simp add: in_place_def)
qed

lemma assign_all_in_place:
  "Some r = self_w s \<or> Some r = self_b s \<Longrightarrow> in_place s (snd (assign_all r rhs s))"
  by (auto simp: assign_all_def in_place_def)

lemma update_param_in_place:
  "Some r = self_w s \<or> Some r = self_b s \<Longrightarrow> in_place s (snd (update_param (r, g) u s))"
  using assign_all_in_place [of r s]
  by (auto simp: update_param_def method_defs in_place_refl split: sum.splits)

lemma updates_in_place:
  assumes "self_w s = Some wr" and "self_b s = Some br"
  shows "in_place s (snd (for_each [(wr, g1), (br, g2)] update_param () s))"
proof -
  obtain r1 s1 where 1: "update_param (wr, g1) () s = (r1, s1)" by fastforce
  have a: "in_place s s1"
    using update_param_in_place [of wr s g1 "()"] 1 assms by simp
  obtain r2 s2 where 2: "update_param (br, g2) () s1 = (r2, s2)" by fastforce
  have b: "in_place s1 s2"
    using update_param_in_place [of br s1 g2 "()"] 2 assms in_place_fields(2) [OF a] by simp
  show ?thesis
    using 1 2 a in_place_trans [OF a b] by (cases r1; cases r2) simp_all
qed

lemma optimize_in_place: "in_place s (snd (optimize X y s))"
proof -
  obtain r where m: "model X s = (r, s)"
    using model_frame [of X s] by (cases "model X s") simp
  show ?thesis
    using m updates_in_place [of s] in_place_refl [of s]
    by (auto simp: optimize_def Let_def method_defs simp del: for_each.simps
        split: sum.splits prod.splits option.splits)
qed

lemma create_weights_result:
  assumes "self_n_inputs s = Some n"
  shows "create_weights s =
    (Inr (), s\<lparr>self_w := Some (heap_next s), self_b := Some (Suc (heap_next s)),
              heap := (heap s)(heap_next s := replicate n 0, Suc (heap_next s) := [0]),
              heap_next := Suc (Suc (heap_next s))\<rparr>)"
  using assms by (simp add: create_weights_def method_defs alloc_def np_zeros_def)

lemma fit_unfold:
  "create_weights s = (Inr (), s1) \<Longrightarrow> self_n_epochs s1 = self_n_epochs s \<Longrightarrow>
   fit s = for_each [0..<nat (self_n_epochs s)] fit_epoch () s1"
  by (simp add: fit_def bindM_def)

lemma bc2_singleton_right: "bc2 f u [b] = Inr (map (\<lambda>a. f a b) u)"
proof (cases "length u = 1")
  case True
  then obtain x where "u = [x]" by (cases u) auto
  then show ?thesis by (simp add: bc2_def)
next
  case False
  then show ?thesis by (simp add: bc2_def)
qed

lemma logit_result:
  assumes "self_w s = Some wr" and "self_b s = Some br" and "heap s br = [b]"
    and "shape1 X = length (heap s wr)"
  shows "logit X s = (Inr (map (\<lambda>r. dot r (heap s wr) + b) (rows X)), s)"
  using assms by (simp add: logit_def method_defs matmul_def bc2_singleton_right)

lemma model_result:
  assumes "self_w s = Some wr" and "self_b s = Some br" and "heap s br = [b]"
    and "shape1 X = length (heap s wr)"
  shows "model X s = (Inr (map (\<lambda>r. naive_sigmoid (dot r (heap s wr) + b)) (rows X)), s)"
  by (simp add: model_def method_defs logit_result [OF assms] sigmoid_naive comp_def)

lemma gradient_step_list:
  assumes "length w = n"
  shows "map2 (-) w (map ((*) lr) (map ((*) c) (map g [0..<n])))
       = map (\<lambda>j. w ! j - lr * (c * g j)) [0..<n]"
  using assms by (intro nth_equalityI) simp_all

lemma optimize_result:
  fixes X y s wr br w b
  defines "m \<equiv> shape0 X"
  defines "e \<equiv> map2 (-) y (map (\<lambda>r. naive_sigmoid (dot r w + b)) (rows X))"
  assumes w: "self_w s = Some wr" and b: "self_b s = Some br" and ne: "wr \<noteq> br"
    and hw: "heap s wr = w" and hb: "heap s br = [b]"
    and sh: "shape1 X = length w" and m: "0 < m" and ly: "length y = m"
  shows "optimize X y s =
    (Inr (), s\<lparr>heap := (heap s)
       (wr := map (\<lambda>j. w ! j - self_lr s * ((- 1 / real m) * dot (column X j) e)) [0..<length w],
        br := [b - self_lr s * (- (sum_list e / real m))])\<rparr>)"
proof -
  have mod: "model X s = (Inr (map (\<lambda>r. naive_sigmoid (dot r w + b)) (rows X)), s)"
    using model_result [OF w b hb] sh hw by simp
  have d: "bc2 (-) y (map (\<lambda>r. naive_sigmoid (dot r w + b)) (rows X)) = Inr e"
    using ly by (simp add: bc2_def e_def m_def shape0_def)
  have le: "length e = m" using ly by (simp add: e_def m_def shape0_def)
  have mm: "matmul (transpose_nd X) e = Inr (map (\<lambda>j. dot (column X j) e) [0..<length w])"
    using le sh
    by (simp add: matmul_def transpose_nd_def shape1_def m_def shape0_def column_def comp_def)
  have mean: "np_mean e = Inr (sum_list e / real m)"
    using le m by (auto simp: np_mean_def)
  define dw where "dw = map ((*) (- 1 / real m)) (map (\<lambda>j. dot (column X j) e) [0..<length w])"
  define w' where "w' = map (\<lambda>j. w ! j - self_lr s * ((- 1 / real m) * dot (column X j) e)) [0..<length w]"
  have rhs: "map2 (-) w (map ((*) (self_lr s)) dw) = w'"
    unfolding dw_def w'_def by (rule gradient_step_list) simp
  have lw': "length w' = length w" by (simp add: w'_def)
  have ldw: "length dw = length w" by (simp add: dw_def)
  have u1: "update_param (wr, Array dw) () s = (Inr (), s\<lparr>heap := (heap s)(wr := w')\<rparr>)"
    using rhs lw' hw ldw by (simp add: update_param_def method_defs bc2_def assign_all_def)
  have u2: "update_param (br, Scalar (- (sum_list e / real m))) () (s\<lparr>heap := (heap s)(wr := w')\<rparr>)
      = (Inr (), s\<lparr>heap := (heap s)(wr := w', br := [b - self_lr s * (- (sum_list e / real m))])\<rparr>)"
    using hb ne by (simp add: update_param_def method_defs assign_all_def)
  have "optimize X y s =
      for_each [(wr, Array dw), (br, Scalar (- (sum_list e / real m)))] update_param () s"
    using mod d mm mean m w b
    by (simp add: optimize_def Let_def method_defs dw_def m_def del: for_each.simps)
  also have "\<dots> = (Inr (), s\<lparr>heap := (heap s)(wr := w', br := [b - self_lr s * (- (sum_list e / real m))])\<rparr>)"
    using u1 u2 by simp
  finally show ?thesis by (simp add: w'_def)
qed

lemma bce_alt: "binary_cross_entropy y z = ln (1 + exp z) - y * z"
  by (simp add: binary_cross_entropy_def ln_naive_sigmoid ln_one_minus_naive_sigmoid algebra_simps)

lemma naive_sigmoid_alt: "naive_sigmoid z = exp z / (1 + exp z)"
proof -
  have "0 < 1 + exp z" by (simp add: add_pos_pos)
  then show ?thesis by (simp add: naive_sigmoid_def exp_minus field_simps)
qed

lemma bce_deriv:
  "((\<lambda>z. binary_cross_entropy y z) has_real_derivative (naive_sigmoid z - y)) (at z)"
proof -
  have pos: "0 < 1 + exp z" by (simp add: add_pos_pos)
  have "((\<lambda>z. ln (1 + exp z) - y * z) has_real_derivative (exp z / (1 + exp z) - y)) (at z)"
    using pos by (auto intro!: derivative_eq_intros simp: field_simps)
  then show ?thesis by (simp add: bce_alt [abs_def] naive_sigmoid_alt)
qed

lemma dot_update:
  "j < length w \<Longrightarrow> length r = length w \<Longrightarrow>
   dot r (w[j := t]) = dot r (w[j := 0]) + r ! j * t"
proof (induction r w arbitrary: j rule: list_induct2')
  case (4 x xs y ys)
  then show ?case by (cases j) (simp_all add: dot_def)
qed simp_all

lemma DERIV_sum_list:
  "(\<And>p. p \<in> set ps \<Longrightarrow> ((\<lambda>t. F p t) has_real_derivative F' p) (at x)) \<Longrightarrow>
   ((\<lambda>t. sum_list (map (\<lambda>p. F p t) ps)) has_real_derivative sum_list (map F' ps)) (at x)"
proof (induction ps)
  case Nil
  then show ?case by simp
next
  case (Cons p ps)
  have "((\<lambda>t. F p t + sum_list (map (\<lambda>p. F p t) ps)) has_real_derivative
          F' p + sum_list (map F' ps)) (at x)"
    by (intro DERIV_add Cons.prems Cons.IH) simp_all
  then show ?case by simp
qed

lemma weight_derivative:
  assumes j: "j < length w" and r: "length r = length w"
  shows "((\<lambda>t. binary_cross_entropy y (dot r (w[j := t]) + b)) has_real_derivative
            (naive_sigmoid (dot r w + b) - y) * r ! j) (at (w ! j))"
proof -
  define c where "c = dot r (w[j := 0])"
  have upd: "\<And>t. dot r (w[j := t]) = c + r ! j * t"
    unfolding c_def by (rule dot_update [OF j r])
  have lin: "((\<lambda>t. c + r ! j * t + b) has_real_derivative r ! j) (at (w ! j))"
    by (auto intro!: derivative_eq_intros)
  have at: "c + r ! j * (w ! j) + b = dot r w + b"
    using upd [of "w ! j"] by simp
  have "((\<lambda>t. binary_cross_entropy y (c + r ! j * t + b)) has_real_derivative
            (naive_sigmoid (c + r ! j * (w ! j) + b) - y) * r ! j) (at (w ! j))"
    by (rule DERIV_chain2 [OF bce_deriv lin])
  then show ?thesis by (simp only: upd at)
qed

lemma error_sum_weight:
  "length y = length rs \<Longrightarrow>
   sum_list (map (\<lambda>(v, r). (naive_sigmoid (dot r w + b) - v) * r ! j) (zip y rs))
   = - dot (map (\<lambda>r. r ! j) rs) (map2 (-) y (map (\<lambda>r. naive_sigmoid (dot r w + b)) rs))"
  by (induction y rs rule: list_induct2) (simp_all add: dot_def algebra_simps)

lemma error_sum_bias:
  "length y = length rs \<Longrightarrow>
   sum_list (map (\<lambda>(v, r). naive_sigmoid (dot r w + b) - v) (zip y rs))
   = - sum_list (map2 (-) y (map (\<lambda>r. naive_sigmoid (dot r w + b)) rs))"
  by (induction y rs rule: list_induct2) (simp_all add: algebra_simps)

lemma mean_cross_entropy_zip:
  "mean_cross_entropy X y w b =
     sum_list (map (\<lambda>(v, r). binary_cross_entropy v (dot r w + b)) (zip y (rows X))) / real (shape0 X)"
proof -
  have "map2 binary_cross_entropy y (map (\<lambda>r. dot r w + b) (rows X))
      = map (\<lambda>(v, r). binary_cross_entropy v (dot r w + b)) (zip y (rows X))"
    by (simp add: zip_map2 case_prod_unfold)
  then show ?thesis by (simp add: mean_cross_entropy_def)
qed

lemma mean_cross_entropy_weight_gradient:
  assumes j: "j < length w" and rect: "rect X" "shape1 X = length w"
    and ly: "length y = shape0 X"
  shows "((\<lambda>t. mean_cross_entropy X y (w[j := t]) b) has_real_derivative
           (- 1 / real (shape0 X)) *
             dot (column X j) (map2 (-) y (map (\<lambda>r. naive_sigmoid (dot r w + b)) (rows X))))
         (at (w ! j))"
proof -
  have each: "\<And>p. p \<in> set (zip y (rows X)) \<Longrightarrow>
      ((\<lambda>t. (case p of (v, r) \<Rightarrow> binary_cross_entropy v (dot r (w[j := t]) + b)))
        has_real_derivative (case p of (v, r) \<Rightarrow> (naive_sigmoid (dot r w + b) - v) * r ! j))
      (at (w ! j))"
  proof -
    fix p assume mem: "p \<in> set (zip y (rows X))"
    obtain v r where p: "p = (v, r)" by (cases p)
    from mem have "r \<in> set (rows X)" unfolding p by (rule set_zip_rightD)
    then have "length (snd p) = length w"
      using rect by (simp add: rect_def list_all_iff shape1_def p)
    then show "((\<lambda>t. (case p of (v, r) \<Rightarrow> binary_cross_entropy v (dot r (w[j := t]) + b)))
        has_real_derivative (case p of (v, r) \<Rightarrow> (naive_sigmoid (dot r w + b) - v) * r ! j))
      (at (w ! j))"
      using weight_derivative [OF j] by (cases p) simp
  qed
  have "((\<lambda>t. sum_list (map (\<lambda>p. case p of (v, r) \<Rightarrow> binary_cross_entropy v (dot r (w[j := t]) + b))
                 (zip y (rows X))))
         has_real_derivative
         sum_list (map (\<lambda>p. case p of (v, r) \<Rightarrow> (naive_sigmoid (dot r w + b) - v) * r ! j)
                 (zip y (rows X)))) (at (w ! j))"
    by (rule DERIV_sum_list) (rule each)
  then have "((\<lambda>t. sum_list (map (\<lambda>p. case p of (v, r) \<Rightarrow> binary_cross_entropy v (dot r (w[j := t]) + b))
                 (zip y (rows X))) / real (shape0 X))
         has_real_derivative
         sum_list (map (\<lambda>p. case p of (v, r) \<Rightarrow> (naive_sigmoid (dot r w + b) - v) * r ! j)
                 (zip y (rows X))) / real (shape0 X)) (at (w ! j))"
    by (rule DERIV_cdivide)
  then show ?thesis
    using ly by (simp add: mean_cross_entropy_zip error_sum_weight shape0_def column_def)
qed

lemma mean_cross_entropy_bias_gradient:
  assumes ly: "length y = shape0 X"
  shows "((\<lambda>t. mean_cross_entropy X y w t) has_real_derivative
           - (sum_list (map2 (-) y (map (\<lambda>r. naive_sigmoid (dot r w + b)) (rows X)))
                / real (shape0 X)))
         (at b)"
proof -
  have each: "\<And>p. p \<in> set (zip y (rows X)) \<Longrightarrow>
      ((\<lambda>t. (case p of (v, r) \<Rightarrow> binary_cross_entropy v (dot r w + t)))
        has_real_derivative (case p of (v, r) \<Rightarrow> naive_sigmoid (dot r w + b) - v))
      (at b)"
  proof -
    fix p :: "real \<times> real list"
    obtain v r where p: "p = (v, r)" by (cases p)
    have "((\<lambda>t. dot r w + t) has_real_derivative 1) (at b)"
      by (auto intro!: derivative_eq_intros)
    from DERIV_chain2 [OF bce_deriv this, of v]
    show "((\<lambda>t. (case p of (v, r) \<Rightarrow> binary_cross_entropy v (dot r w + t)))
        has_real_derivative (case p of (v, r) \<Rightarrow> naive_sigmoid (dot r w + b) - v)) (at b)"
      by (simp add: p)
  qed
  have "((\<lambda>t. sum_list (map (\<lambda>p. case p of (v, r) \<Rightarrow> binary_cross_entropy v (dot r w + t))
                 (zip y (rows X))))
         has_real_derivative
         sum_list (map (\<lambda>p. case p of (v, r) \<Rightarrow> naive_sigmoid (dot r w + b) - v)
                 (zip y (rows X)))) (at b)"
    by (rule DERIV_sum_list) (rule each)
  then have "((\<lambda>t. sum_list (map (\<lambda>p. case p of (v, r) \<Rightarrow> binary_cross_entropy v (dot r w + t))
                 (zip y (rows X))) / real (shape0 X))
         has_real_derivative
         sum_list (map (\<lambda>p. case p of (v, r) \<Rightarrow> naive_sigmoid (dot r w + b) - v)
                 (zip y (rows X))) / real (shape0 X)) (at b)"
    by (rule DERIV_cdivide)
  then show ?thesis
    using ly by (simp add: mean_cross_entropy_zip error_sum_bias shape0_def)
qed

lemma framesD: "frames R m \<Longrightarrow> m s = (r, s') \<Longrightarrow> R s s'"
  by (auto simp: frames_def dest: spec [of _ s])

lemma frames_pure:
  assumes "preorder_rel R"
  shows "frames R (returnM x)" "frames R (raise e)" "frames R (lift r)" "frames R (attr f)"
    "frames R (deref a)" "frames R (\<lambda>s. (Inr (g s), s))"
  using assms
  by (auto simp: frames_def preorder_rel_def method_defs split: option.splits)

lemma frames_bindM:
  assumes R: "preorder_rel R" and m: "frames R m" and f: "\<And>x. frames R (f x)"
  shows "frames R (bindM m f)"
  unfolding frames_def
proof
  fix s
  obtain r s1 where 1: "m s = (r, s1)" by fastforce
  have a: "R s s1" using framesD [OF m 1] .
  show "R s (snd (bindM m f s))"
  proof (cases r)
    case (Inl e)
    then show ?thesis using 1 a by (simp add: bindM_def)
  next
    case (Inr x)
    obtain r2 s2 where 2: "f x s1 = (r2, s2)" by fastforce
    have "R s1 s2" using framesD [OF f 2] .
    with a have "R s s2" using R unfolding preorder_rel_def by blast
    then show ?thesis using 1 2 Inr by (simp add: bindM_def)
  qed
qed

lemma frames_for_each:
  assumes R: "preorder_rel R" and body: "\<And>x acc. x \<in> set xs \<Longrightarrow> frames R (body x acc)"
  shows "frames R (for_each xs body acc)"
  using body
proof (induction xs arbitrary: acc)
  case Nil
  then show ?case using R by (simp add: frames_def preorder_rel_def)
next
  case (Cons x xs)
  show ?case unfolding frames_def
  proof
    fix s
    obtain r s1 where 1: "body x acc s = (r, s1)" by fastforce
    have a: "R s s1" using framesD [OF Cons.prems 1] by simp
    show "R s (snd (for_each (x # xs) body acc s))"
    proof (cases r)
      case (Inl e)
      then show ?thesis using 1 a by simp
    next
      case (Inr acc')
      have "frames R (for_each xs body acc')"
        by (rule Cons.IH) (simp add: Cons.prems)
      then have "R s1 (snd (for_each xs body acc' s1))" by (simp add: frames_def)
      with a have "R s (snd (for_each xs body acc' s1))"
        using R unfolding preorder_rel_def by blast
      then show ?thesis using 1 Inr by simp
    qed
  qed
qed

lemma frames_case_prod: "(\<And>a b. frames R (f a b)) \<Longrightarrow> frames R (case p of (a, b) \<Rightarrow> f a b)"
  by (cases p) simp

lemma frames_if: "frames R m \<Longrightarrow> frames R m' \<Longrightarrow> frames R (if c then m else m')"
  by simp

lemma preorder_same_config: "preorder_rel same_config"
  by (simp add: preorder_rel_def same_config_def)

lemma preorder_in_place: "preorder_rel in_place"
  unfolding preorder_rel_def using in_place_refl in_place_trans by blast

lemmas fetch_defs = fetch_batch_start_def fetch_batch_index_def fetch_batch_yield_def

lemma fetch_frames:
  assumes "preorder_rel R"
  shows "frames R fetch_batch_start" "frames R (fetch_batch_index idx i)"
    "frames R (fetch_batch_yield idx i)"
  unfolding fetch_defs Let_def
  by (intro frames_bindM frames_pure assms)+

lemma logit_frames: "preorder_rel R \<Longrightarrow> frames R (logit X)"
  by (simp add: frames_def preorder_rel_def logit_frame)

lemma model_frames: "preorder_rel R \<Longrightarrow> frames R (model X)"
  by (simp add: frames_def preorder_rel_def model_frame)

lemma in_place_same_config: "in_place s s' \<Longrightarrow> same_config s s'"
proof -
  assume "in_place s s'"
  then have e: "s' = s\<lparr>heap := heap s'\<rparr>" by (simp add: in_place_def)
  have "config s' = config (s\<lparr>heap := heap s'\<rparr>)" by (rule arg_cong [OF e])
  also have "\<dots> = config s" by (simp add: config_def)
  finally show ?thesis by (simp add: same_config_def)
qed

lemma optimize_same_config: "frames same_config (optimize X y)"
  by (simp add: frames_def optimize_in_place in_place_same_config)

lemma loss_same_config: "frames same_config (loss y z)"
  unfolding loss_def Let_def
  by (intro frames_bindM frames_pure preorder_same_config)
     (simp add: frames_def same_config_def config_def)

lemma fit_batch_same_config: "frames same_config (fit_batch X y t)"
  unfolding fit_batch_def
  by (intro frames_bindM frames_pure preorder_same_config optimize_same_config
      loss_same_config logit_frames)

lemma print_loss_same_config: "frames same_config (print_loss e t)"
  by (simp add: frames_def print_loss_def same_config_def config_def)

lemma fit_epoch_same_config: "frames same_config (fit_epoch e u)"
  unfolding fit_epoch_def
  by (intro frames_bindM frames_pure preorder_same_config fetch_frames frames_case_prod
      frames_for_each fit_batch_same_config frames_if print_loss_same_config)

lemma create_weights_same_config: "frames same_config create_weights"
  unfolding create_weights_def
  by (intro frames_bindM frames_pure preorder_same_config)
     (simp_all add: frames_def same_config_def config_def alloc_def)

lemma fit_same_config: "frames same_config fit"
  unfolding fit_def
  by (intro frames_bindM frames_pure preorder_same_config create_weights_same_config
      frames_for_each fit_epoch_same_config)

subsection \<open>Batches and the shuffle\<close>

lemma ceil_div_step:
  assumes "0 < bs" and "i < n"
  shows "(n - i + bs - 1) div bs = Suc ((n - (i + bs) + bs - 1) div bs)"
proof (cases "i + bs \<le> n")
  case True
  define d where "d = n - (i + bs) + bs - 1"
  have "n - i + bs - 1 = d + bs" unfolding d_def using True assms by arith
  moreover have "(d + bs) div bs = Suc (d div bs)" using assms(1) by simp
  ultimately show ?thesis unfolding d_def by simp
next
  case False
  define e where "e = n - i + bs - 1"
  have "bs \<le> e" "e < 2 * bs" unfolding e_def using False assms by arith+
  then have "e div bs = 1" by (intro div_nat_eqI) simp_all
  moreover have "(n - (i + bs) + bs - 1) div bs = 0" using False assms(1) by simp
  ultimately show ?thesis unfolding e_def by simp
qed

lemma range_from_closed:
  "0 < bs \<Longrightarrow> range_from i n bs = map (\<lambda>q. i + q * bs) [0..<(n - i + bs - 1) div bs]"
proof (induction i n bs rule: range_from.induct)
  case (1 i n step)
  show ?case
  proof (cases "i < n")
    case True
    have "range_from i n step = i # range_from (i + step) n step"
      using True "1.prems" by (subst range_from.simps) simp
    also have "\<dots> = i # map (\<lambda>q. i + step + q * step) [0..<(n - (i + step) + step - 1) div step]"
      using "1.IH" True "1.prems" by simp
    also have "\<dots> = map (\<lambda>q. i + q * step) [0..<Suc ((n - (i + step) + step - 1) div step)]"
      by (simp add: upt_conv_Cons map_Suc_upt [symmetric] del: upt_Suc add: algebra_simps)
    finally show ?thesis using ceil_div_step [OF "1.prems" True] by simp
  next
    case False
    then have "n - i = 0" by simp
    then have "(n - i + step - 1) div step = 0" using "1.prems" by simp
    moreover have "range_from i n step = []" using False by (subst range_from.simps) simp
    ultimately show ?thesis by simp
  qed
qed

lemma py_slice_upt:
  assumes "i \<le> n"
  shows "py_slice [0..<n] (int i) (min (int i + int bs) (int n)) = [i..<min (i + bs) n]"
proof -
  have e: "min (int i + int bs) (int n) = int (min (i + bs) n)" by simp
  have "py_slice [0..<n] (int i) (int (min (i + bs) n)) = [i..<min (i + bs) n]"
    using assms by (simp add: py_slice_def Let_def min_def)
  then show ?thesis by (simp only: e)
qed


lemma split_div_mod:
  assumes "0 < (bs::nat)"
  obtains c r where "n = bs * c + r" and "r < bs" and "n div bs = c" and "n mod bs = r"
proof
  show "n = bs * (n div bs) + n mod bs" by simp
  show "n mod bs < bs" using assms by simp
qed simp_all

lemma ceil_div_cases:
  assumes "0 < bs"
  shows "(n + bs - 1) div bs = (if bs dvd n then n div bs else Suc (n div bs))"
proof -
  obtain c r where n: "n = bs * c + r" and r: "r < bs" and d: "n div bs = c" and m: "n mod bs = r"
    using split_div_mod [OF assms] by blast
  show ?thesis
  proof (cases "r = 0")
    case True
    have "(bs * c + bs - 1) div bs = c"
      using assms by (intro div_nat_eqI) (simp_all add: algebra_simps)
    moreover have "bs dvd n" using True m by (simp add: dvd_eq_mod_eq_0)
    ultimately show ?thesis using True d by (simp add: n)
  next
    case False
    have "(bs * c + r + bs - 1) div bs = Suc c"
      using r False by (intro div_nat_eqI) (simp_all add: algebra_simps)
    moreover have "\<not> bs dvd n" using False m by (simp add: dvd_eq_mod_eq_0)
    ultimately show ?thesis using d by (simp add: n)
  qed
qed

lemma ceil_div_bounds:
  assumes "0 < (bs::nat)" and "0 < (n::nat)"
  shows "((n + bs - 1) div bs - 1) * bs < n \<and> n \<le> (n + bs - 1) div bs * bs"
proof -
  obtain c r where n: "n = bs * c + r" and r: "r < bs" and d: "n div bs = c" and m: "n mod bs = r"
    using split_div_mod [OF assms(1)] by blast
  show ?thesis
  proof (cases "r = 0")
    case True
    then have dv: "bs dvd n" using m by (simp add: dvd_eq_mod_eq_0)
    have k: "(n + bs - 1) div bs = c" using ceil_div_cases [OF assms(1), of n] dv d by simp
    have "0 < c" using True n assms by (cases c) simp_all
    then have "(c - 1) * bs < c * bs" using assms by simp
    moreover have "n = c * bs" using True n by (simp add: mult.commute)
    ultimately show ?thesis unfolding k by simp
  next
    case False
    then have dv: "\<not> bs dvd n" using m by (simp add: dvd_eq_mod_eq_0)
    have k: "(n + bs - 1) div bs = Suc c" using ceil_div_cases [OF assms(1), of n] dv d by simp
    have "c * bs < bs * c + r" using False by (simp add: mult.commute)
    moreover have "bs * c + r \<le> Suc c * bs" using r by (simp add: mult.commute)
    ultimately show ?thesis unfolding k by (simp add: n)
  qed
qed

lemma batch_length:
  assumes bs: "0 < bs" and n: "0 < n" and q: "q < (n + bs - 1) div bs"
  shows "length [q * bs..<min (q * bs + bs) n] =
           (if q < (n + bs - 1) div bs - 1 \<or> bs dvd n then bs else n mod bs)"
proof -
  define k where "k = (n + bs - 1) div bs"
  have lo: "(k - 1) * bs < n" and hi: "n \<le> k * bs"
    using ceil_div_bounds [OF bs n] by (simp_all add: k_def)
  show ?thesis
  proof (cases "q < k - 1")
    case True
    then have "Suc q \<le> k - 1" by simp
    then have "Suc q * bs \<le> (k - 1) * bs" by (rule mult_le_mono1)
    then have "q * bs + bs \<le> n" using lo by simp
    then show ?thesis using True by (simp add: k_def)
  next
    case False
    then have qk: "q = k - 1" and k: "0 < k" using q by (simp_all add: k_def)
    then have "q * bs + bs = k * bs" by (cases k) simp_all
    then have m: "min (q * bs + bs) n = n" using hi by simp
    show ?thesis
    proof (cases "bs dvd n")
      case True
      then have "k = n div bs" using ceil_div_cases [OF bs, of n] by (simp add: k_def)
      then have "k * bs = n" using True by simp
      then have "n - q * bs = bs" using \<open>q * bs + bs = k * bs\<close> by simp
      then show ?thesis using True m by simp
    next
      case nd: False
      then have "k = Suc (n div bs)" using ceil_div_cases [OF bs, of n] by (simp add: k_def)
      then have "q = n div bs" using qk by simp
      then have "n - q * bs = n mod bs" by (simp add: minus_div_mult_eq_mod)
      then show ?thesis using nd False m by (simp add: k_def)
    qed
  qed
qed

lemma concat_range_slices:
  "0 < bs \<Longrightarrow> concat (map (\<lambda>i. [i..<min (i + bs) n]) (range_from i0 n bs)) = [i0..<n]"
proof (induction i0 n bs rule: range_from.induct)
  case (1 i n step)
  show ?case
  proof (cases "i < n")
    case True
    have r: "range_from i n step = i # range_from (i + step) n step"
      using True "1.prems" by (subst range_from.simps) simp
    have "[i..<min (i + step) n] @ [i + step..<n] = [i..<n]"
    proof (cases "i + step \<le> n")
      case le: True
      then have "[i..<n] = [i..<i + step] @ [i + step..<n]"
        using upt_add_eq_append [of i "i + step" "n - (i + step)"] by simp
      then show ?thesis using le by simp
    next
      case False
      then show ?thesis by simp
    qed
    then show ?thesis using "1.IH" True "1.prems" r by simp
  next
    case False
    moreover have "range_from i n step = []" using False by (subst range_from.simps) simp
    ultimately show ?thesis by simp
  qed
qed

lemma fetch_batch_start_result:
  assumes "self_n_examples s = Some n" and "self_batch_size s = int bs" and "0 < bs"
  shows "fetch_batch_start s = (Inr ([0..<n], range_from 0 n bs), s)"
  using assms by (simp add: fetch_batch_start_def method_defs py_range0_def Let_def)

lemma fetch_batch_index_result:
  assumes "self_n_examples s = Some n" and "self_batch_size s = int bs" and "i \<le> n"
  shows "fetch_batch_index [0..<n] i s = (Inr [i..<min (i + bs) n], s)"
  using assms py_slice_upt [OF assms(3), of bs]
  by (simp add: fetch_batch_index_def method_defs)

lemma fetch_batch_yield_result:
  assumes "self_n_examples s = Some n" and "self_batch_size s = int bs" and "i \<le> n"
    and "self_X_train s = Some X" and "shape0 X = n"
    and "self_y_train s = Some y" and "n \<le> length y"
  shows "fetch_batch_yield [0..<n] i s =
     (Inr (\<lparr>ncols = ncols X, rows = map (\<lambda>i. rows X ! i) [i..<min (i + bs) n]\<rparr>,
           map (\<lambda>i. y ! i) [i..<min (i + bs) n]), s)"
  using assms fetch_batch_index_result [OF assms(1,2,3)]
  by (simp add: fetch_batch_yield_def method_defs ndarray_take_def vector_take_def list_all_iff)

lemma for_each_collect:
  assumes "\<And>i. i \<in> set xs \<Longrightarrow> g i s = (Inr (h i), s)"
  shows "for_each xs (\<lambda>i acc. bindM (g i) (\<lambda>b. returnM (acc @ [b]))) acc s
           = (Inr (acc @ map h xs), s)"
  using assms
proof (induction xs arbitrary: acc)
  case Nil
  then show ?case by simp
next
  case (Cons x xs)
  have "bindM (g x) (\<lambda>b. returnM (acc @ [b])) s = (Inr (acc @ [h x]), s)"
    using Cons.prems [of x] by (simp add: bindM_def returnM_def)
  then show ?case using Cons.IH [of "acc @ [h x]"] Cons.prems by simp
qed

lemma range_from_le: "i \<in> set (range_from i0 n bs) \<Longrightarrow> i < n"
proof (induction i0 n bs rule: range_from.induct)
  case (1 i0 n step)
  show ?case
  proof (cases "0 < step \<and> i0 < n")
    case True
    then have "range_from i0 n step = i0 # range_from (i0 + step) n step"
      by (subst range_from.simps) simp
    then show ?thesis using "1.IH" "1.prems" True by auto
  next
    case False
    then have "range_from i0 n step = []" by (subst range_from.simps) simp
    then show ?thesis using "1.prems" by simp
  qed
qed

lemma slices_closed:
  assumes "0 < bs"
  shows "map (\<lambda>i. [i..<min (i + bs) n]) (range_from 0 n bs)
       = map (\<lambda>q. [q * bs..<min (q * bs + bs) n]) [0..<(n + bs - 1) div bs]"
  using range_from_closed [OF assms, of 0 n] by (simp add: comp_def)

lemma fetch_batch_indices_result:
  assumes n: "self_n_examples s = Some n" and bs: "self_batch_size s = int bs" and pos: "0 < bs"
  shows "fetch_batch_indices s =
     (Inr (map (\<lambda>q. [q * bs..<min (q * bs + bs) n]) [0..<(n + bs - 1) div bs]), s)"
proof -
  have "for_each (range_from 0 n bs)
          (\<lambda>i acc. bindM (fetch_batch_index [0..<n] i) (\<lambda>b. returnM (acc @ [b]))) [] s
        = (Inr ([] @ map (\<lambda>i. [i..<min (i + bs) n]) (range_from 0 n bs)), s)"
    by (rule for_each_collect) (use range_from_le fetch_batch_index_result [OF n bs] in force)
  then show ?thesis
    using fetch_batch_start_result [OF n bs pos] slices_closed [OF pos, of n]
    by (simp add: fetch_batch_indices_def bindM_def)
qed

lemma fetch_batch_result:
  assumes n: "self_n_examples s = Some n" and bs: "self_batch_size s = int bs" and pos: "0 < bs"
    and X: "self_X_train s = Some X" "shape0 X = n"
    and y: "self_y_train s = Some y" "n \<le> length y"
  shows "fetch_batch s =
     (Inr (map (\<lambda>sl. (\<lparr>ncols = ncols X, rows = map (\<lambda>i. rows X ! i) sl\<rparr>, map (\<lambda>i. y ! i) sl))
            (map (\<lambda>q. [q * bs..<min (q * bs + bs) n]) [0..<(n + bs - 1) div bs])), s)"
proof -
  have "for_each (range_from 0 n bs)
          (\<lambda>i acc. bindM (fetch_batch_yield [0..<n] i) (\<lambda>b. returnM (acc @ [b]))) [] s
        = (Inr ([] @ map (\<lambda>i. (\<lparr>ncols = ncols X, rows = map (\<lambda>i. rows X ! i) [i..<min (i + bs) n]\<rparr>,
                               map (\<lambda>i. y ! i) [i..<min (i + bs) n])) (range_from 0 n bs)), s)"
    by (rule for_each_collect)
       (use range_from_le fetch_batch_yield_result [OF n bs _ X y] in force)
  moreover have "map (\<lambda>i. (\<lparr>ncols = ncols X, rows = map (\<lambda>i. rows X ! i) [i..<min (i + bs) n]\<rparr>,
                               map (\<lambda>i. y ! i) [i..<min (i + bs) n])) (range_from 0 n bs)
     = map (\<lambda>sl. (\<lparr>ncols = ncols X, rows = map (\<lambda>i. rows X ! i) sl\<rparr>, map (\<lambda>i. y ! i) sl))
         (map (\<lambda>i. [i..<min (i + bs) n]) (range_from 0 n bs))"
    by (simp add: comp_def)
  ultimately show ?thesis
    using fetch_batch_start_result [OF n bs pos] slices_closed [OF pos, of n]
    by (simp add: fetch_batch_def bindM_def)
qed

lemma get_dataset_py_random:
  "py_random (snd (get_dataset shuffle_fn X y shuffle s)) =
     (if shuffle then snd (shuffle_fn (py_random s) [0..<shape0 X]) else py_random s)"
  by (simp add: get_dataset_def method_defs random_shuffle_def split: prod.splits sum.splits)

lemma get_dataset_shuffled:
  assumes sh: "shuffle_fn (py_random s) [0..<shape0 X] = (idx, g')"
    and ix: "list_all (\<lambda>i. i < shape0 X) idx" and iy: "list_all (\<lambda>i. i < length y) idx"
  shows "get_dataset shuffle_fn X y True s =
     (Inr (), s\<lparr>self_X_train := Some \<lparr>ncols = ncols X, rows = map (\<lambda>i. rows X ! i) idx\<rparr>,
               self_y_train := Some (map (\<lambda>i. y ! i) idx),
               self_n_examples := Some (shape0 X), self_n_inputs := Some (shape1 X),
               py_random := g'\<rparr>)"
  using assms
  by (simp add: get_dataset_def method_defs random_shuffle_def ndarray_take_def vector_take_def)

lemma get_dataset_unshuffled:
  "get_dataset shuffle_fn X y False s =
     (Inr (), s\<lparr>self_X_train := Some X, self_y_train := Some y,
               self_n_examples := Some (shape0 X), self_n_inputs := Some (shape1 X)\<rparr>)"
  by (simp add: get_dataset_def method_defs)

lemma permuted_pairs:
  assumes perm: "mset idx = mset [0..<length xs]" and ly: "length xs \<le> length ys"
  shows "mset (zip (map (\<lambda>i. xs ! i) idx) (map (\<lambda>i. ys ! i) idx)) = mset (zip xs (take (length xs) ys))"
proof -
  have "zip (map (\<lambda>i. xs ! i) idx) (map (\<lambda>i. ys ! i) idx) = map (\<lambda>i. (xs ! i, ys ! i)) idx"
    by (induction idx) simp_all
  then have "mset (zip (map (\<lambda>i. xs ! i) idx) (map (\<lambda>i. ys ! i) idx))
      = image_mset (\<lambda>i. (xs ! i, ys ! i)) (mset idx)" by simp
  also have "\<dots> = mset (map (\<lambda>i. (xs ! i, ys ! i)) [0..<length xs])"
    by (simp add: perm)
  also have "map (\<lambda>i. (xs ! i, ys ! i)) [0..<length xs] = zip xs (take (length xs) ys)"
    using ly by (intro nth_equalityI) simp_all
  finally show ?thesis .
qed

text \<open>
  Claim C9. When \<open>random.shuffle\<close> returns a permutation \<open>idx\<close> of the row indices,
  \<open>get_dataset\<close> with \<open>shuffle=True\<close> stores row \<open>idx[i]\<close> of the features and label
  \<open>idx[i]\<close> at position \<open>i\<close>: one permutation for both, so the stored pairs of a row
  and its label are the original pairs. Labels must be at least as many as the rows;
  fewer raise \<open>IndexError\<close>.
\<close>

theorem get_dataset_shuffle_keeps_pairs:
  assumes sh: "shuffle_fn (py_random s) [0..<shape0 X] = (idx, g')"
    and perm: "mset idx = mset [0..<shape0 X]"
    and ly: "shape0 X \<le> length y"
  shows "\<exists>s' X' y'. get_dataset shuffle_fn X y True s = (Inr (), s')
           \<and> self_X_train s' = Some X' \<and> self_y_train s' = Some y'
           \<and> shape0 X' = shape0 X \<and> length y' = shape0 X
           \<and> (\<forall>i < shape0 X. rows X' ! i = rows X ! (idx ! i) \<and> y' ! i = y ! (idx ! i))
           \<and> mset (zip (rows X') y') = mset (zip (rows X) (take (shape0 X) y))"
proof -
  have set: "set idx = {0..<shape0 X}"
    using mset_eq_setD [OF perm] by simp
  have len: "length idx = shape0 X"
    using mset_eq_length [OF perm] by simp
  have ix: "list_all (\<lambda>i. i < shape0 X) idx" using set by (simp add: list_all_iff)
  have iy: "list_all (\<lambda>i. i < length y) idx" using set ly by (auto simp: list_all_iff)
  define X' where "X' = \<lparr>ncols = ncols X, rows = map (\<lambda>i. rows X ! i) idx\<rparr>"
  define y' where "y' = map (\<lambda>i. y ! i) idx"
  define s' where "s' = s\<lparr>self_X_train := Some X', self_y_train := Some y',
               self_n_examples := Some (shape0 X), self_n_inputs := Some (shape1 X),
               py_random := g'\<rparr>"
  have "get_dataset shuffle_fn X y True s = (Inr (), s')"
    unfolding s'_def X'_def y'_def using sh ix iy by (rule get_dataset_shuffled)
  moreover have "self_X_train s' = Some X'" "self_y_train s' = Some y'" by (simp_all add: s'_def)
  moreover have "shape0 X' = shape0 X" "length y' = shape0 X"
    using len by (simp_all add: X'_def y'_def shape0_def)
  moreover have "\<forall>i < shape0 X. rows X' ! i = rows X ! (idx ! i) \<and> y' ! i = y ! (idx ! i)"
    using len by (simp add: X'_def y'_def)
  moreover have "mset (zip (rows X') y') = mset (zip (rows X) (take (shape0 X) y))"
    using permuted_pairs [of idx "rows X" y] perm ly by (simp add: X'_def y'_def shape0_def)
  ultimately show ?thesis by blast
qed

theorem get_dataset_shuffle_keeps_pairs_witness:
  "\<exists>s'. get_dataset (\<lambda>g xs. (rev xs, g)) \<lparr>ncols = 1, rows = [[10], [20], [30]]\<rparr> [0, 1, 1] True
            (new_LogisticRegression 2 1 1 () ()) = (Inr (), s')
     \<and> self_X_train s' = Some \<lparr>ncols = 1, rows = [[30], [20], [10]]\<rparr>
     \<and> self_y_train s' = Some [1, 1, 0]"
proof -
  define X0 where "X0 = \<lparr>ncols = 1, rows = [[10], [20], [30::real]]\<rparr>"
  define s0 :: "unit world" where "s0 = new_LogisticRegression 2 1 1 () ()"
  have e: "[0..<3] = [0, Suc 0, 2]" by (simp add: upt_rec numeral_3_eq_3)
  have sh: "(\<lambda>g xs. (rev xs, g)) (py_random s0) [0..<shape0 X0] = ([2, Suc 0, 0], ())"
    by (simp add: shape0_def e X0_def)
  have perm: "mset [2, Suc 0, 0] = mset [0..<shape0 X0]"
    by (simp add: shape0_def e X0_def)
  have ly: "shape0 X0 \<le> length [0, 1, 1::real]" by (simp add: shape0_def X0_def)
  obtain s' X' y' where r: "get_dataset (\<lambda>g xs. (rev xs, g)) X0 [0, 1, 1] True s0 = (Inr (), s')"
    and X': "self_X_train s' = Some X'" and y': "self_y_train s' = Some y'"
    and sz: "shape0 X' = shape0 X0" "length y' = shape0 X0"
    and nth: "\<forall>i < shape0 X0. rows X' ! i = rows X0 ! ([2, Suc 0, 0] ! i) \<and> y' ! i = [0, 1, 1] ! ([2, Suc 0, 0] ! i)"
    using get_dataset_shuffle_keeps_pairs
      [of "\<lambda>g xs. (rev xs, g)" s0 X0 "[2, Suc 0, 0]" "()" "[0, 1, 1]", OF sh perm ly]
    by blast
  have "ncols X' = 1 \<and> rows X' = [[30], [20], [10]] \<and> y' = [1, 1, 0]"
    using get_dataset_shuffled [of "\<lambda>g xs. (rev xs, g)" s0 X0 "[2, Suc 0, 0]" "()" "[0, 1, 1]", OF sh] r X' y'
    by (auto simp: shape0_def X0_def numeral_2_eq_2)
  then have "X' = \<lparr>ncols = 1, rows = [[30], [20], [10]]\<rparr>" and "y' = [1, 1, 0]" by simp_all
  with r X' y' show ?thesis unfolding X0_def s0_def by blast
qed

text \<open>
  Claim C4. With \<open>n \<ge> 1\<close> stored examples and batch size \<open>bs \<ge> 1\<close>, \<open>_fetch_batch\<close> yields
  the contiguous index ranges \<open>[0, bs)\<close>, \<open>[bs, 2 bs)\<close>, ... of the stored arrays in
  increasing order; together they are \<open>0, ..., n - 1\<close>, each index once; every batch has
  \<open>bs\<close> examples but possibly the last, which has \<open>n mod bs\<close> when \<open>bs\<close> does not divide
  \<open>n\<close>. An epoch and a whole \<open>fit\<close> leave the stored arrays, the sizes and the random
  generator as they were, so every epoch sees these same batches. The order is shuffled
  once, in \<open>get_dataset\<close>: with shuffling enabled it draws one shuffle \<open>idx\<close> of
  \<open>0, ..., n - 1\<close> from the generator and stores \<open>X[idx]\<close> and \<open>y[idx]\<close>; with shuffling
  disabled it stores \<open>X\<close> and \<open>y\<close> as given and leaves the generator alone.
\<close>

theorem fetch_batch_contiguous:
  fixes s :: "'g world"
  assumes n: "self_n_examples s = Some n" and bs: "self_batch_size s = int bs"
    and n1: "1 \<le> n" and bs1: "1 \<le> bs"
    and X: "self_X_train s = Some X" "shape0 X = n"
    and y: "self_y_train s = Some y" "n \<le> length y"
  shows "let k = (n + bs - 1) div bs;
             slices = map (\<lambda>q. [q * bs..<min (q * bs + bs) n]) [0..<k]
         in fetch_batch_indices s = (Inr slices, s)
          \<and> fetch_batch s =
              (Inr (map (\<lambda>sl. (\<lparr>ncols = ncols X, rows = map (\<lambda>i. rows X ! i) sl\<rparr>,
                               map (\<lambda>i. y ! i) sl)) slices), s)
          \<and> concat slices = [0..<n]
          \<and> (\<forall>q < k. length (slices ! q) = (if q < k - 1 \<or> bs dvd n then bs else n mod bs))
          \<and> (\<forall>e u (t :: 'g world). same_config t (snd (fit_epoch e u t)))
          \<and> (\<forall>t :: 'g world. same_config t (snd (fit t)))
          \<and> (\<forall>shuffle_fn X0 y0 shuffle (t :: 'g world).
                py_random (snd (get_dataset shuffle_fn X0 y0 shuffle t)) =
                  (if shuffle then snd (shuffle_fn (py_random t) [0..<shape0 X0]) else py_random t))
          \<and> (\<forall>shuffle_fn X0 y0 (t :: 'g world) idx g'.
                shuffle_fn (py_random t) [0..<shape0 X0] = (idx, g')
                \<and> list_all (\<lambda>i. i < shape0 X0) idx \<and> list_all (\<lambda>i. i < length y0) idx
              \<longrightarrow> get_dataset shuffle_fn X0 y0 True t =
                    (Inr (), t\<lparr>self_X_train :=
                                  Some \<lparr>ncols = ncols X0, rows = map (\<lambda>i. rows X0 ! i) idx\<rparr>,
                                self_y_train := Some (map (\<lambda>i. y0 ! i) idx),
                                self_n_examples := Some (shape0 X0),
                                self_n_inputs := Some (shape1 X0), py_random := g'\<rparr>))
          \<and> (\<forall>shuffle_fn X0 y0 (t :: 'g world).
                get_dataset shuffle_fn X0 y0 False t =
                    (Inr (), t\<lparr>self_X_train := Some X0, self_y_train := Some y0,
                                self_n_examples := Some (shape0 X0),
                                self_n_inputs := Some (shape1 X0)\<rparr>))"
proof -
  have pos: "0 < bs" "0 < n" using n1 bs1 by simp_all
  define k where "k = (n + bs - 1) div bs"
  define slices where "slices = map (\<lambda>q. [q * bs..<min (q * bs + bs) n]) [0..<k]"
  have a: "fetch_batch_indices s = (Inr slices, s)"
    unfolding slices_def k_def by (rule fetch_batch_indices_result [OF n bs pos(1)])
  have b: "fetch_batch s =
              (Inr (map (\<lambda>sl. (\<lparr>ncols = ncols X, rows = map (\<lambda>i. rows X ! i) sl\<rparr>,
                               map (\<lambda>i. y ! i) sl)) slices), s)"
    unfolding slices_def k_def by (rule fetch_batch_result [OF n bs pos(1) X y])
  have c: "concat slices = [0..<n]"
    using concat_range_slices [OF pos(1), of n 0] slices_closed [OF pos(1), of n]
    by (simp add: slices_def k_def)
  have d: "\<forall>q < k. length (slices ! q) = (if q < k - 1 \<or> bs dvd n then bs else n mod bs)"
  proof (intro allI impI)
    fix q assume q: "q < k"
    then have "slices ! q = [q * bs..<min (q * bs + bs) n]" by (simp add: slices_def)
    then show "length (slices ! q) = (if q < k - 1 \<or> bs dvd n then bs else n mod bs)"
      using batch_length [OF pos, of q] q unfolding k_def by simp
  qed
  have e: "\<forall>e u t. same_config t (snd (fit_epoch e u t :: (error + unit) \<times> 'g world))"
    by (simp add: fit_epoch_same_config [unfolded frames_def])
  have f: "\<forall>t. same_config t (snd (fit t :: (error + unit) \<times> 'g world))"
    by (simp add: fit_same_config [unfolded frames_def])
  have g: "\<forall>shuffle_fn X0 y0 shuffle t.
                py_random (snd (get_dataset shuffle_fn X0 y0 shuffle (t :: 'g world))) =
                  (if shuffle then snd (shuffle_fn (py_random t) [0..<shape0 X0]) else py_random t)"
    by (intro allI) (rule get_dataset_py_random)
  have h: "\<forall>shuffle_fn X0 y0 (t :: 'g world) idx g'.
                shuffle_fn (py_random t) [0..<shape0 X0] = (idx, g')
                \<and> list_all (\<lambda>i. i < shape0 X0) idx \<and> list_all (\<lambda>i. i < length y0) idx
              \<longrightarrow> get_dataset shuffle_fn X0 y0 True t =
                    (Inr (), t\<lparr>self_X_train :=
                                  Some \<lparr>ncols = ncols X0, rows = map (\<lambda>i. rows X0 ! i) idx\<rparr>,
                                self_y_train := Some (map (\<lambda>i. y0 ! i) idx),
                                self_n_examples := Some (shape0 X0),
                                self_n_inputs := Some (shape1 X0), py_random := g'\<rparr>)"
    by (intro allI impI, elim conjE) (rule get_dataset_shuffled)
  have i: "\<forall>shuffle_fn X0 y0 (t :: 'g world).
                get_dataset shuffle_fn X0 y0 False t =
                    (Inr (), t\<lparr>self_X_train := Some X0, self_y_train := Some y0,
                                self_n_examples := Some (shape0 X0),
                                self_n_inputs := Some (shape1 X0)\<rparr>)"
    by (intro allI) (rule get_dataset_unshuffled)
  from a b c d e f g h i show ?thesis
    unfolding Let_def k_def [symmetric] slices_def [symmetric] by blast
qed



theorem fetch_batch_contiguous_witness:
  "fst (bindM (get_dataset (\<lambda>g xs. (rev xs, g)) \<lparr>ncols = 1, rows = [[10], [20], [30]]\<rparr>
                 [0, 1, 1] True)
          (\<lambda>_. fetch_batch) (new_LogisticRegression 2 1 1 () ()))
     = Inr [(\<lparr>ncols = 1, rows = [[30], [20]]\<rparr>, [1, 1]), (\<lparr>ncols = 1, rows = [[10]]\<rparr>, [0])]
   \<and> fst (bindM (get_dataset (\<lambda>g xs. (rev xs, g)) \<lparr>ncols = 1, rows = [[10], [20], [30]]\<rparr>
                 [0, 1, 1] True)
          (\<lambda>_. fetch_batch_indices) (new_LogisticRegression 2 1 1 () ()))
     = Inr [[0, 1], [2]]"
proof -
  define X0 where "X0 = \<lparr>ncols = 1, rows = [[10], [20], [30::real]]\<rparr>"
  define X1 where "X1 = \<lparr>ncols = 1, rows = [[30], [20], [10::real]]\<rparr>"
  define s00 :: "unit world" where "s00 = new_LogisticRegression 2 1 1 () ()"
  define s0 where "s0 = s00\<lparr>self_X_train := Some X1, self_y_train := Some [1, 1, 0],
      self_n_examples := Some 3, self_n_inputs := Some 1, py_random := ()\<rparr>"
  have e3: "[0..<3] = [0, Suc 0, 2]" by (simp add: upt_rec numeral_3_eq_3)
  have h: "self_n_examples s0 = Some 3" "self_batch_size s0 = int 2" "1 \<le> (3::nat)" "1 \<le> (2::nat)"
    "self_X_train s0 = Some X1" "shape0 X1 = 3"
    "self_y_train s0 = Some [1, 1, 0]" "3 \<le> length [1, 1, 0::real]"
    by (simp_all add: s0_def s00_def new_LogisticRegression_def shape0_def X1_def)
  note t = fetch_batch_contiguous [OF h, unfolded Let_def]
  have sh: "(\<lambda>g xs. (rev xs, g)) (py_random s00) [0..<shape0 X0] = ([2, Suc 0, 0], ())
      \<and> list_all (\<lambda>i. i < shape0 X0) [2, Suc 0, 0]
      \<and> list_all (\<lambda>i. i < length [0, 1, 1::real]) [2, Suc 0, 0]"
    by (simp add: shape0_def X0_def e3)
  from t have hd: "\<forall>shuffle_fn X0 y0 (t :: unit world) idx g'.
                shuffle_fn (py_random t) [0..<shape0 X0] = (idx, g')
                \<and> list_all (\<lambda>i. i < shape0 X0) idx \<and> list_all (\<lambda>i. i < length y0) idx
              \<longrightarrow> get_dataset shuffle_fn X0 y0 True t =
                    (Inr (), t\<lparr>self_X_train :=
                                  Some \<lparr>ncols = ncols X0, rows = map (\<lambda>i. rows X0 ! i) idx\<rparr>,
                                self_y_train := Some (map (\<lambda>i. y0 ! i) idx),
                                self_n_examples := Some (shape0 X0),
                                self_n_inputs := Some (shape1 X0), py_random := g'\<rparr>)"
    by (elim conjE)
  have gd: "get_dataset (\<lambda>g xs. (rev xs, g)) X0 [0, 1, 1] True s00 = (Inr (), s0)"
    using hd [THEN spec [where x = "\<lambda>g xs. (rev xs, g)"], THEN spec [where x = X0],
        THEN spec [where x = "[0, 1, 1]"], THEN spec [where x = s00],
        THEN spec [where x = "[2, Suc 0, 0]"], THEN spec [where x = "()"], THEN mp, OF sh]
    by (simp add: s0_def X0_def X1_def shape0_def shape1_def numeral_2_eq_2 numeral_3_eq_3)
  have k: "(3 + 2 - 1) div 2 = (2::nat)" by simp
  have u: "[0..<2] = [0, Suc 0]" by (simp add: upt_rec numeral_2_eq_2)
  have v: "[0..<min 2 3] = [0, Suc 0]" "[2..<3] = [2::nat]"
    by (simp_all add: upt_rec numeral_2_eq_2 numeral_3_eq_3)
  have fi: "fetch_batch_indices s0 = (Inr [[0, 1], [2]], s0)"
    using t unfolding k by (simp add: u v numeral_2_eq_2)
  have fb: "fetch_batch s0 =
      (Inr [(\<lparr>ncols = 1, rows = [[30], [20]]\<rparr>, [1, 1]), (\<lparr>ncols = 1, rows = [[10]]\<rparr>, [0])], s0)"
    using t unfolding k by (simp add: u v numeral_2_eq_2 X1_def)
  show ?thesis
    using gd fi fb by (simp add: bindM_def s00_def X0_def)
qed

subsection \<open>One gradient step\<close>

text \<open>
  Claim C3. For a batch \<open>(X, y)\<close> of \<open>m \<ge> 1\<close> rows and parameters \<open>(w, b)\<close>, \<open>_optimize\<close>
  overwrites the weights by \<open>w - lr * (-1/m) * X.T (y - sigmoid(X w + b))\<close> and the bias by
  \<open>b - lr * (-mean(y - sigmoid(X w + b)))\<close>. The two amounts are the partial derivatives of
  the mean cross-entropy loss of the batch in each weight and in the bias. No gradient
  step, epoch or fit changes the learning rate.
\<close>

theorem optimize_gradient_step:
  fixes s :: "'g world"
  assumes w: "self_w s = Some wr" and b: "self_b s = Some br" and ne: "wr \<noteq> br"
    and hw: "heap s wr = w" and hb: "heap s br = [b]"
    and rect: "rect X" and sh: "shape1 X = length w"
    and m: "0 < shape0 X" and ly: "length y = shape0 X"
  shows "let m = real (shape0 X);
             err = map2 (-) y (map (\<lambda>r. naive_sigmoid (dot r w + b)) (rows X));
             dw = (\<lambda>j. (- 1 / m) * dot (column X j) err);
             db = - (sum_list err / m)
         in optimize X y s =
              (Inr (), s\<lparr>heap := (heap s)
                 (wr := map (\<lambda>j. w ! j - self_lr s * dw j) [0..<length w],
                  br := [b - self_lr s * db])\<rparr>)
          \<and> (\<forall>j < length w.
                ((\<lambda>v. mean_cross_entropy X y (w[j := v]) b) has_real_derivative dw j) (at (w ! j)))
          \<and> ((\<lambda>v. mean_cross_entropy X y w v) has_real_derivative db) (at b)
          \<and> self_lr (snd (optimize X y s)) = self_lr s
          \<and> (\<forall>X' y' (t :: 'g world). self_lr (snd (optimize X' y' t)) = self_lr t)
          \<and> (\<forall>e u (t :: 'g world). self_lr (snd (fit_epoch e u t)) = self_lr t)
          \<and> (\<forall>t :: 'g world. self_lr (snd (fit t)) = self_lr t)"
proof -
  define err where "err = map2 (-) y (map (\<lambda>r. naive_sigmoid (dot r w + b)) (rows X))"
  define dw where "dw = (\<lambda>j. (- 1 / real (shape0 X)) * dot (column X j) err)"
  define db where "db = - (sum_list err / real (shape0 X))"
  have lr: "\<And>s s' :: 'g world. same_config s s' \<Longrightarrow> self_lr s' = self_lr s"
    by (simp add: same_config_def config_def)
  have a: "optimize X y s =
              (Inr (), s\<lparr>heap := (heap s)
                 (wr := map (\<lambda>j. w ! j - self_lr s * dw j) [0..<length w],
                  br := [b - self_lr s * db])\<rparr>)"
    unfolding dw_def db_def err_def by (rule optimize_result [OF w b ne hw hb sh m ly])
  have g1: "\<forall>j < length w.
      ((\<lambda>v. mean_cross_entropy X y (w[j := v]) b) has_real_derivative dw j) (at (w ! j))"
    unfolding dw_def err_def
    using mean_cross_entropy_weight_gradient [OF _ rect sh ly] by blast
  have g2: "((\<lambda>v. mean_cross_entropy X y w v) has_real_derivative db) (at b)"
    unfolding db_def err_def by (rule mean_cross_entropy_bias_gradient [OF ly])
  have l0: "self_lr (snd (optimize X y s)) = self_lr s" by (simp add: a)
  have l1: "\<forall>X' y' (t :: 'g world). self_lr (snd (optimize X' y' t)) = self_lr t"
    by (intro allI lr) (simp add: optimize_same_config [unfolded frames_def])
  have l2: "\<forall>e u (t :: 'g world). self_lr (snd (fit_epoch e u t)) = self_lr t"
    by (intro allI lr) (simp add: fit_epoch_same_config [unfolded frames_def])
  have l3: "\<forall>t :: 'g world. self_lr (snd (fit t)) = self_lr t"
    by (intro allI lr) (simp add: fit_same_config [unfolded frames_def])
  show ?thesis
    unfolding Let_def
    using a [unfolded dw_def db_def err_def] g1 [unfolded dw_def err_def]
      g2 [unfolded db_def err_def] l0 l1 l2 l3
    by blast
qed

theorem optimize_gradient_step_witness:
  "optimize \<lparr>ncols = 1, rows = [[2]]\<rparr> [1]
     (snd (create_weights ((new_LogisticRegression 64 1 1000 () ())\<lparr>self_n_inputs := Some 1\<rparr>)))
   = (Inr (),
      (snd (create_weights ((new_LogisticRegression 64 1 1000 () ())\<lparr>self_n_inputs := Some 1\<rparr>)))
        \<lparr>heap := (\<lambda>_. [])(0 := [1], 1 := [1 / 2])\<rparr>)"
proof -
  define s0 :: "unit world" where
    "s0 = snd (create_weights ((new_LogisticRegression 64 1 1000 () ())\<lparr>self_n_inputs := Some 1\<rparr>))"
  have s0: "s0 = (new_LogisticRegression 64 1 1000 () ())
      \<lparr>self_n_inputs := Some 1, self_w := Some 0, self_b := Some 1,
       heap := (\<lambda>_. [])(0 := [0], 1 := [0]), heap_next := 2\<rparr>"
    by (simp add: s0_def create_weights_result new_LogisticRegression_def numeral_2_eq_2)
  have h: "self_w s0 = Some 0" "self_b s0 = Some 1" "(0::nat) \<noteq> 1"
    "heap s0 0 = [0]" "heap s0 1 = [0]" "rect \<lparr>ncols = 1, rows = [[2]]\<rparr>"
    "shape1 \<lparr>ncols = 1, rows = [[2]]\<rparr> = length [0::real]"
    "0 < shape0 \<lparr>ncols = 1, rows = [[2]]\<rparr>"
    "length [1::real] = shape0 \<lparr>ncols = 1, rows = [[2]]\<rparr>"
    by (simp_all add: s0 rect_def shape0_def shape1_def)
  have lr: "self_lr s0 = 1" by (simp add: s0 new_LogisticRegression_def)
  have hp: "heap s0 = (\<lambda>_. [])(0 := [0], 1 := [0])" by (simp add: s0)
  have "optimize \<lparr>ncols = 1, rows = [[2]]\<rparr> [1] s0
      = (Inr (), s0\<lparr>heap := (\<lambda>_. [])(0 := [1], 1 := [1 / 2])\<rparr>)"
    using optimize_gradient_step [OF h]
    by (simp add: Let_def lr hp shape0_def column_def dot_def naive_sigmoid_def fun_upd_twist)
  then show ?thesis by (simp add: s0_def)
qed

subsection \<open>Initial parameters and in-place training\<close>

lemma preorder_same_arrays: "preorder_rel same_arrays"
  by (auto simp: preorder_rel_def same_arrays_def)

lemma in_place_same_arrays: "in_place s s' \<Longrightarrow> same_arrays s s'"
  using in_place_fields(1,2,4) [of s s']
  by (simp add: same_arrays_def) (simp add: in_place_def)

lemma optimize_same_arrays: "frames same_arrays (optimize X y)"
  by (simp add: frames_def optimize_in_place in_place_same_arrays)

lemma loss_same_arrays: "frames same_arrays (loss y z)"
  unfolding loss_def Let_def
  by (intro frames_bindM frames_pure preorder_same_arrays)
     (simp add: frames_def same_arrays_def)

lemma fit_batch_same_arrays: "frames same_arrays (fit_batch X y t)"
  unfolding fit_batch_def
  by (intro frames_bindM frames_pure preorder_same_arrays optimize_same_arrays
      loss_same_arrays logit_frames)

lemma print_loss_same_arrays: "frames same_arrays (print_loss e t)"
  by (simp add: frames_def print_loss_def same_arrays_def)

lemma fit_epoch_same_arrays: "frames same_arrays (fit_epoch e u)"
  unfolding fit_epoch_def
  by (intro frames_bindM frames_pure preorder_same_arrays fetch_frames frames_case_prod
      frames_for_each fit_batch_same_arrays frames_if print_loss_same_arrays)

lemma epochs_same_arrays: "frames same_arrays (for_each es fit_epoch u)"
  by (intro frames_for_each preorder_same_arrays fit_epoch_same_arrays)

lemma fit_batch_result:
  fixes s :: "'g world"
  assumes w: "self_w s = Some wr" and b: "self_b s = Some br" and ne: "wr \<noteq> br"
    and hw: "heap s wr = w0" and hb: "heap s br = [b0]"
    and sh: "shape1 X = length w0" and m: "0 < shape0 X" and ly: "length y = shape0 X"
  shows "\<exists>v ce. fit_batch X y total_loss s =
           (Inr v, (snd (optimize X y s))\<lparr>self_cross_entropy := Some ce\<rparr>)
         \<and> fst (optimize X y s) = Inr ()"
proof -
  define e where "e = map2 (-) y (map (\<lambda>r. naive_sigmoid (dot r w0 + b0)) (rows X))"
  define w1 where "w1 = map (\<lambda>j. w0 ! j - self_lr s * ((- 1 / real (shape0 X)) * dot (column X j) e)) [0..<length w0]"
  define b1 where "b1 = b0 - self_lr s * (- (sum_list e / real (shape0 X)))"
  define s1 where "s1 = s\<lparr>heap := (heap s)(wr := w1, br := [b1])\<rparr>"
  have opt: "optimize X y s = (Inr (), s1)"
    unfolding s1_def w1_def b1_def e_def by (rule optimize_result [OF w b ne hw hb sh m ly])
  have y: "y \<noteq> []" using m ly by auto
  have f: "self_w s1 = Some wr" "self_b s1 = Some br" "heap s1 br = [b1]"
    "shape1 X = length (heap s1 wr)"
    using w b ne sh by (simp_all add: s1_def w1_def)
  define z where "z = map (\<lambda>r. dot r (heap s1 wr) + b1) (rows X)"
  have lg: "logit X s1 = (Inr z, s1)" unfolding z_def by (rule logit_result [OF f])
  have lz: "length y = length z" using ly by (simp add: z_def shape0_def)
  have ls: "loss y z s1 = (np_mean (map2 binary_cross_entropy y z),
      s1\<lparr>self_cross_entropy := Some (map2 binary_cross_entropy y z)\<rparr>)"
    by (rule loss_result [OF lz])
  have "map2 binary_cross_entropy y z \<noteq> []" using y lz by (cases y; cases z) simp_all
  then obtain v where mv: "np_mean (map2 binary_cross_entropy y z) = Inr v"
    by (simp add: np_mean_def)
  have "fit_batch X y total_loss s =
      (Inr (total_loss + v * real (shape0 X)), s1\<lparr>self_cross_entropy := Some (map2 binary_cross_entropy y z)\<rparr>)"
    using y opt lg ls mv by (simp add: fit_batch_def method_defs reshape_column_def)
  then show ?thesis using opt by auto
qed


text \<open>
  Claim C7. \<open>_create_weights\<close> makes \<open>self._w\<close> a new array of \<open>n_inputs\<close> zeros and
  \<open>self._b\<close> a new array holding one zero, and \<open>fit\<close> is the epochs run from the world
  after it. Every gradient step on a batch that fits the parameters writes
  \<open>w - lr * dw\<close> into the array \<open>self._w\<close> refers to and \<open>b - lr * db\<close> into the array
  \<open>self._b\<close> refers to, and changes nothing else: the update is in place. Through the
  whole fit the object refers to these same two arrays and they keep their lengths.
\<close>

theorem create_weights_zero_then_in_place:
  fixes s :: "'g world"
  assumes "self_n_inputs s = Some n"
  shows "\<exists>wr br s1.
           create_weights s = (Inr (), s1)
         \<and> self_w s1 = Some wr \<and> self_b s1 = Some br \<and> wr \<noteq> br
         \<and> heap s1 wr = replicate n 0 \<and> heap s1 br = [0]
         \<and> fst (get_coeff s1) = Inr ([0], replicate n 0)
         \<and> fit s = for_each [0..<nat (self_n_epochs s)] fit_epoch () s1
         \<and> (\<forall>X y (t :: 'g world) b.
               self_w t = Some wr \<and> self_b t = Some br \<and> heap t br = [b]
               \<and> shape1 X = length (heap t wr) \<and> 0 < shape0 X \<and> length y = shape0 X
             \<longrightarrow> (let m = real (shape0 X); w = heap t wr;
                      err = map2 (-) y (map (\<lambda>r. naive_sigmoid (dot r w + b)) (rows X))
                  in optimize X y t =
                       (Inr (), t\<lparr>heap := (heap t)
                          (wr := map (\<lambda>j. w ! j - self_lr t * ((- 1 / m) * dot (column X j) err))
                                   [0..<length w],
                           br := [b - self_lr t * (- (sum_list err / m))])\<rparr>)))
         \<and> (\<forall>X y (t :: 'g world). in_place t (snd (optimize X y t)))
         \<and> same_arrays s1 (snd (fit s))
         \<and> self_w (snd (fit s)) = Some wr \<and> self_b (snd (fit s)) = Some br
         \<and> length (heap (snd (fit s)) wr) = n \<and> length (heap (snd (fit s)) br) = 1"
proof -
  define wr where "wr = heap_next s"
  define br where "br = Suc (heap_next s)"
  define s1 where "s1 = s\<lparr>self_w := Some wr, self_b := Some br,
              heap := (heap s)(wr := replicate n 0, br := [0]),
              heap_next := Suc (Suc (heap_next s))\<rparr>"
  have cw: "create_weights s = (Inr (), s1)"
    unfolding s1_def wr_def br_def by (rule create_weights_result [OF assms])
  have f: "self_w s1 = Some wr" "self_b s1 = Some br" "wr \<noteq> br"
    "heap s1 wr = replicate n 0" "heap s1 br = [0]" "self_n_epochs s1 = self_n_epochs s"
    by (simp_all add: s1_def wr_def br_def)
  have gc: "fst (get_coeff s1) = Inr ([0], replicate n 0)"
    using f by (simp add: get_coeff_def method_defs)
  have ft: "fit s = for_each [0..<nat (self_n_epochs s)] fit_epoch () s1"
    using cw f(6) by (rule fit_unfold)
  have st: "\<forall>X y (t :: 'g world) b.
               self_w t = Some wr \<and> self_b t = Some br \<and> heap t br = [b]
               \<and> shape1 X = length (heap t wr) \<and> 0 < shape0 X \<and> length y = shape0 X
             \<longrightarrow> (let m = real (shape0 X); w = heap t wr;
                      err = map2 (-) y (map (\<lambda>r. naive_sigmoid (dot r w + b)) (rows X))
                  in optimize X y t =
                       (Inr (), t\<lparr>heap := (heap t)
                          (wr := map (\<lambda>j. w ! j - self_lr t * ((- 1 / m) * dot (column X j) err))
                                   [0..<length w],
                           br := [b - self_lr t * (- (sum_list err / m))])\<rparr>))"
    unfolding Let_def using optimize_result [OF _ _ f(3) refl] by blast
  have ip: "\<forall>X y (t :: 'g world). in_place t (snd (optimize X y t))"
    by (simp add: optimize_in_place)
  have sa: "same_arrays s1 (snd (fit s))"
    unfolding ft using epochs_same_arrays [unfolded frames_def] by blast
  then have k: "self_w (snd (fit s)) = Some wr" "self_b (snd (fit s)) = Some br"
    "length (heap (snd (fit s)) wr) = n" "length (heap (snd (fit s)) br) = 1"
    using f by (simp_all add: same_arrays_def)
  from cw f gc ft st ip sa k show ?thesis by blast
qed


theorem create_weights_zero_then_in_place_witness:
  "fst (bindM fit (\<lambda>_. get_coeff)
      ((new_LogisticRegression 64 1 1 () ())
         \<lparr>self_X_train := Some \<lparr>ncols = 1, rows = [[2]]\<rparr>, self_y_train := Some [1],
          self_n_examples := Some 1, self_n_inputs := Some 1\<rparr>)) = Inr ([1 / 2], [1])
   \<and> fst (bindM create_weights (\<lambda>_. get_coeff)
      ((new_LogisticRegression 64 1 1 () ())
         \<lparr>self_X_train := Some \<lparr>ncols = 1, rows = [[2]]\<rparr>, self_y_train := Some [1],
          self_n_examples := Some 1, self_n_inputs := Some 1\<rparr>)) = Inr ([0], [0])"
proof -
  define X where "X = \<lparr>ncols = 1, rows = [[2::real]]\<rparr>"
  define s0 :: "unit world" where
    "s0 = (new_LogisticRegression 64 1 1 () ())
         \<lparr>self_X_train := Some X, self_y_train := Some [1],
          self_n_examples := Some 1, self_n_inputs := Some 1\<rparr>"
  have n: "self_n_inputs s0 = Some 1" by (simp add: s0_def)
  obtain wr br :: nat and s1 where cw: "create_weights s0 = (Inr (), s1)"
    and w: "self_w s1 = Some wr" and b: "self_b s1 = Some br" and ne: "wr \<noteq> br"
    and hw: "heap s1 wr = replicate 1 0" and hb: "heap s1 br = [0]"
    and gc: "fst (get_coeff s1) = Inr ([0], replicate 1 0)"
    and ft: "fit s0 = for_each [0..<nat (self_n_epochs s0)] fit_epoch () s1"
    and st: "\<forall>X y (t :: unit world) b.
               self_w t = Some wr \<and> self_b t = Some br \<and> heap t br = [b]
               \<and> shape1 X = length (heap t wr) \<and> 0 < shape0 X \<and> length y = shape0 X
             \<longrightarrow> (let m = real (shape0 X); w = heap t wr;
                      err = map2 (-) y (map (\<lambda>r. naive_sigmoid (dot r w + b)) (rows X))
                  in optimize X y t =
                       (Inr (), t\<lparr>heap := (heap t)
                          (wr := map (\<lambda>j. w ! j - self_lr t * ((- 1 / m) * dot (column X j) err))
                                   [0..<length w],
                           br := [b - self_lr t * (- (sum_list err / m))])\<rparr>))"
    using create_weights_zero_then_in_place [OF n] by blast
  have c: "self_n_examples s1 = Some 1" "self_batch_size s1 = int 64" "self_X_train s1 = Some X"
    "self_y_train s1 = Some [1]" "self_lr s1 = 1" "self_n_epochs s0 = 1"
  proof -
    have "s1 = s0\<lparr>self_w := Some (heap_next s0), self_b := Some (Suc (heap_next s0)),
              heap := (heap s0)(heap_next s0 := replicate 1 0, Suc (heap_next s0) := [0]),
              heap_next := Suc (Suc (heap_next s0))\<rparr>"
      using cw unfolding create_weights_result [OF n] by simp
    then show "self_n_examples s1 = Some 1" "self_batch_size s1 = int 64"
      "self_X_train s1 = Some X" "self_y_train s1 = Some [1]" "self_lr s1 = 1"
      by (simp_all add: s0_def new_LogisticRegression_def)
    show "self_n_epochs s0 = 1" by (simp add: s0_def new_LogisticRegression_def)
  qed
  have sz: "shape1 X = length (heap s1 wr)" "0 < shape0 X" "length [1::real] = shape0 X"
    "shape0 X = 1"
    using hw by (simp_all add: X_def shape0_def shape1_def)
  have opt: "optimize X [1] s1 = (Inr (), s1\<lparr>heap := (heap s1)(wr := [1], br := [1 / 2])\<rparr>)"
    using st [rule_format, of s1 0 X "[1]"] w b hb sz(1,2,3) hw c(5)
    by (simp add: Let_def shape0_def X_def column_def dot_def naive_sigmoid_def)
  obtain v ce where fb: "fit_batch X [1] 0 s1 =
      (Inr v, (snd (optimize X [1] s1))\<lparr>self_cross_entropy := Some ce\<rparr>)"
    using fit_batch_result [OF w b ne refl hb sz(1,2,3), of 0] by blast
  have start: "fetch_batch_start s1 = (Inr ([0..<1], [0]), s1)"
    using fetch_batch_start_result [OF c(1,2)] range_from_closed [of 64 0 1] by simp
  have yl: "fetch_batch_yield [0..<1] 0 s1 = (Inr (X, [1]), s1)"
    using fetch_batch_yield_result [OF c(1,2) _ c(3) sz(4) c(4), of 0]
    by (simp add: X_def)
  have ep: "fit_epoch 0 () s1 =
      (Inr (), s1\<lparr>heap := (heap s1)(wr := [1], br := [1 / 2]), self_cross_entropy := Some ce,
                  stdout := stdout s1 @ [(0, v)]\<rparr>)"
    using start yl fb opt by (simp add: fit_epoch_def bindM_def print_loss_def)
  have "fst (bindM fit (\<lambda>_. get_coeff) s0) = Inr ([1 / 2], [1])"
    using ep w b ne by (simp add: ft c(6) get_coeff_def method_defs)
  moreover have "fst (bindM create_weights (\<lambda>_. get_coeff) s0) = Inr ([0], [0])"
    using cw gc by (simp add: bindM_def)
  ultimately show ?thesis by (simp add: s0_def X_def)
qed

subsection \<open>The label transform of the dataset adapter\<close>

text \<open>
  Claim C5, amended. For an index in range and an example transform that does not
  raise: when the label transform is true (as every function is), \<open>__getitem__\<close> returns
  as label what the transform returns for the dataset object itself, not for the label
  at the index, and raises what the transform raises; when the label transform is
  \<open>None\<close> or another false object, the label at the index is returned unchanged.
\<close>

theorem getitem_truthy_label_transform_on_self:
  assumes ex: "py_index (rows (examples self)) idx = Inr e0"
    and lb: "py_index (labels self) idx = Inr l0"
    and tr: "if is_true (transform self) then py_call (transform self) e0 = Inr e1 else e1 = e0"
  shows "(\<forall>c v. target_transform self = Some c \<and> truthy c
              \<and> call c (DatasetObject (examples self) (labels self)) = Inr v
            \<longrightarrow> getitem self idx = Inr (e1, v))
       \<and> (\<forall>c err. target_transform self = Some c \<and> truthy c
              \<and> call c (DatasetObject (examples self) (labels self)) = Inl err
            \<longrightarrow> getitem self idx = Inl err)
       \<and> (\<not> is_true (target_transform self) \<longrightarrow> getitem self idx = Inr (e1, l0))"
  using assms by (auto simp: getitem_def is_true_def py_call_def split: if_splits)

theorem getitem_truthy_label_transform_on_self_witness:
  "getitem \<lparr>examples = \<lparr>ncols = 1, rows = [[10], [20]]\<rparr>, labels = [3, 4],
            transform = None,
            target_transform = Some \<lparr>truthy = True,
              call = (\<lambda>v. case v of Label x \<Rightarrow> Inr (x + 1) | DatasetObject X l \<Rightarrow> Inr (sum_list l))\<rparr>\<rparr> 1
     = Inr ([20], 7)
   \<and> getitem \<lparr>examples = \<lparr>ncols = 1, rows = [[10], [20]]\<rparr>, labels = [3, 4],
            transform = None, target_transform = None\<rparr> 1
     = Inr ([20], 4)"
proof -
  define c :: "(py_value, real) py_object" where "c = \<lparr>truthy = True,
              call = (\<lambda>v. case v of Label x \<Rightarrow> Inr (x + 1) | DatasetObject X l \<Rightarrow> Inr (sum_list l))\<rparr>"
  define D where "D = \<lparr>examples = \<lparr>ncols = 1, rows = [[10], [20::real]]\<rparr>, labels = [3, 4::real],
            transform = None, target_transform = Some c\<rparr>"
  define D' where "D' = \<lparr>examples = \<lparr>ncols = 1, rows = [[10], [20::real]]\<rparr>, labels = [3, 4::real],
            transform = None, target_transform = None\<rparr>"
  have h: "py_index (rows (examples D)) 1 = Inr [20]" "py_index (labels D) 1 = Inr 4"
    "if is_true (transform D) then py_call (transform D) [20] = Inr [20] else [20] = [20::real]"
    by (simp_all add: D_def py_index_def is_true_def)
  have h': "py_index (rows (examples D')) 1 = Inr [20]" "py_index (labels D') 1 = Inr 4"
    "if is_true (transform D') then py_call (transform D') [20] = Inr [20] else [20] = [20::real]"
    by (simp_all add: D'_def py_index_def is_true_def)
  have "target_transform D = Some c \<and> truthy c
      \<and> call c (DatasetObject (examples D) (labels D)) = Inr 7"
    by (simp add: D_def c_def)
  then have 1: "getitem D 1 = Inr ([20], 7)"
    using getitem_truthy_label_transform_on_self [OF h] by blast
  have "\<not> is_true (target_transform D')" by (simp add: D'_def is_true_def)
  then have 2: "getitem D' 1 = Inr ([20], 4)"
    using getitem_truthy_label_transform_on_self [OF h'] by blast
  from 1 2 show ?thesis by (simp add: D_def D'_def c_def)
qed

text \<open>
  The claim as stated speaks of every label transform that is not \<open>None\<close>. A transform
  that is not \<open>None\<close> but false is never called: the label at the index comes back, here
  4, where the transform would give -1 for the dataset object.
\<close>

theorem getitem_falsy_transform_counterexample:
  "target_transform
     \<lparr>examples = \<lparr>ncols = 1, rows = [[10], [20]]\<rparr>, labels = [3, 4], transform = None,
      target_transform = Some \<lparr>truthy = False, call = (\<lambda>v. Inr (- 1))\<rparr>\<rparr> \<noteq> None
   \<and> getitem
     \<lparr>examples = \<lparr>ncols = 1, rows = [[10], [20]]\<rparr>, labels = [3, 4], transform = None,
      target_transform = Some \<lparr>truthy = False, call = (\<lambda>v. Inr (- 1))\<rparr>\<rparr> 1 = Inr ([20], 4)
   \<and> call \<lparr>truthy = False, call = (\<lambda>v. Inr (- 1))\<rparr>
        (DatasetObject \<lparr>ncols = 1, rows = [[10], [20]]\<rparr> [3, 4]) = (Inr (- 1) :: error + real)
   \<and> (4::real) \<noteq> - 1"
  by (simp add: getitem_def py_index_def is_true_def py_call_def)

subsection \<open>The epochs of fit\<close>

lemma training_data_kept: "same_config s s' \<Longrightarrow> training_data X y s \<Longrightarrow> training_data X y s'"
  by (simp add: same_config_def config_def training_data_def)

lemma params_ready_kept:
  assumes c: "same_config s s'" and a: "same_arrays s s'" and p: "params_ready s"
  shows "params_ready s'"
proof -
  obtain wr br where w: "self_w s = Some wr" "self_b s = Some br" "wr \<noteq> br"
    "Some (length (heap s wr)) = self_n_inputs s" "length (heap s br) = 1"
    using p unfolding params_ready_def by blast
  have n: "self_n_inputs s' = self_n_inputs s"
    using c by (simp add: same_config_def config_def)
  have "self_w s' = Some wr" "self_b s' = Some br"
    "length (heap s' wr) = length (heap s wr)" "length (heap s' br) = length (heap s br)"
    using a w(1,2) by (simp_all add: same_arrays_def)
  then show ?thesis unfolding params_ready_def using w n by auto
qed

lemma fit_batch_succeeds:
  fixes s :: "'g world"
  assumes p: "params_ready s" and n: "self_n_inputs s = Some (shape1 X)"
    and m: "0 < shape0 X" and ly: "length y = shape0 X"
  shows "\<exists>v s'. fit_batch X y total_loss s = (Inr v, s')"
proof -
  obtain wr br where w: "self_w s = Some wr" and b: "self_b s = Some br" and ne: "wr \<noteq> br"
    and lw: "Some (length (heap s wr)) = self_n_inputs s" and lb: "length (heap s br) = 1"
    using p unfolding params_ready_def by blast
  obtain b0 where hb: "heap s br = [b0]" using lb by (cases "heap s br") auto
  have sh: "shape1 X = length (heap s wr)" using lw n by simp
  show ?thesis
    using fit_batch_result [OF w b ne refl hb sh m ly, of total_loss] by blast
qed

lemma for_each_succeeds:
  assumes "I s"
    and "\<And>x acc s. x \<in> set xs \<Longrightarrow> I s \<Longrightarrow> \<exists>acc' s'. body x acc s = (Inr acc', s') \<and> I s'"
  shows "\<exists>acc' s'. for_each xs body acc s = (Inr acc', s') \<and> I s'"
  using assms
proof (induction xs arbitrary: acc s)
  case Nil
  then show ?case by simp
next
  case (Cons x xs)
  obtain acc1 s1 where 1: "body x acc s = (Inr acc1, s1)" and i: "I s1"
    using Cons.prems(2) [of x s acc] Cons.prems(1) by auto
  have "\<exists>acc' s'. for_each xs body acc1 s1 = (Inr acc', s') \<and> I s'"
    by (rule Cons.IH [OF i]) (use Cons.prems(2) in auto)
  then show ?case using 1 by simp
qed

lemma for_each_trace:
  assumes "I s"
    and "\<And>x s. x \<in> set xs \<Longrightarrow> I s \<Longrightarrow> \<exists>s'. body x () s = (Inr (), s') \<and> I s'"
  shows "\<exists>ss. length ss = Suc (length xs) \<and> ss ! 0 = s
           \<and> (\<forall>k < length xs. body (xs ! k) () (ss ! k) = (Inr (), ss ! Suc k))
           \<and> for_each xs body () s = (Inr (), ss ! length xs)
           \<and> (\<forall>t \<in> set ss. I t)"
  using assms
proof (induction xs arbitrary: s)
  case Nil
  then show ?case by (intro exI [of _ "[s]"]) simp
next
  case (Cons x xs)
  obtain s1 where 1: "body x () s = (Inr (), s1)" and i: "I s1"
    using Cons.prems(2) [of x s] Cons.prems(1) by auto
  have "\<exists>ss. length ss = Suc (length xs) \<and> ss ! 0 = s1
           \<and> (\<forall>k < length xs. body (xs ! k) () (ss ! k) = (Inr (), ss ! Suc k))
           \<and> for_each xs body () s1 = (Inr (), ss ! length xs)
           \<and> (\<forall>t \<in> set ss. I t)"
    by (rule Cons.IH [OF i]) (use Cons.prems(2) in auto)
  then obtain ss where ss: "length ss = Suc (length xs)" "ss ! 0 = s1"
    "\<forall>k < length xs. body (xs ! k) () (ss ! k) = (Inr (), ss ! Suc k)"
    "for_each xs body () s1 = (Inr (), ss ! length xs)" "\<forall>t \<in> set ss. I t"
    by blast
  have step: "\<forall>k < length (x # xs). body ((x # xs) ! k) () ((s # ss) ! k) = (Inr (), (s # ss) ! Suc k)"
  proof (intro allI impI)
    fix k assume k: "k < length (x # xs)"
    show "body ((x # xs) ! k) () ((s # ss) ! k) = (Inr (), (s # ss) ! Suc k)"
    proof (cases k)
      case 0
      then show ?thesis using 1 ss(2) by simp
    next
      case (Suc j)
      then show ?thesis using ss(3) k by simp
    qed
  qed
  show ?case
    using ss(1,4,5) 1 step Cons.prems(1)
    by (intro exI [of _ "s # ss"]) simp
qed

lemma for_each_prefetch:
  assumes "I s"
    and "\<And>i t. i \<in> set xs \<Longrightarrow> I t \<Longrightarrow> g i t = (Inr (f i), t)"
    and "\<And>i acc t. i \<in> set xs \<Longrightarrow> I t \<Longrightarrow> I (snd (h (f i) acc t))"
  shows "for_each xs (\<lambda>i acc. bindM (g i) (\<lambda>b. h b acc)) acc s = for_each (map f xs) h acc s"
  using assms
proof (induction xs arbitrary: acc s)
  case Nil
  then show ?case by simp
next
  case (Cons x xs)
  have g: "g x s = (Inr (f x), s)" using Cons.prems(1,2) by simp
  obtain r s1 where 1: "h (f x) acc s = (r, s1)" by fastforce
  have i: "I s1" using Cons.prems(3) [of x s acc] Cons.prems(1) 1 by simp
  have b: "bindM (g x) (\<lambda>b. h b acc) s = (r, s1)" using g 1 by (simp add: bindM_def)
  show ?case
  proof (cases r)
    case (Inl e)
    then show ?thesis using b 1 by simp
  next
    case (Inr acc1)
    have "for_each xs (\<lambda>i acc. bindM (g i) (\<lambda>b. h b acc)) acc1 s1 = for_each (map f xs) h acc1 s1"
      by (rule Cons.IH [OF i]) (use Cons.prems(2,3) in auto)
    then show ?thesis using b 1 Inr by simp
  qed
qed

lemma same_config_trans: "same_config s t \<Longrightarrow> same_config t u \<Longrightarrow> same_config s u"
  by (simp add: same_config_def)

lemma same_config_refl: "same_config s s"
  by (simp add: same_config_def)

lemma training_data_fetch:
  assumes td: "training_data X y t" and i: "i < shape0 X"
  shows "fetch_batch_yield [0..<shape0 X] i t
           = (Inr (batch_at X y (nat (self_batch_size t)) i), t)"
proof -
  have f: "self_n_examples t = Some (shape0 X)" "self_batch_size t = int (nat (self_batch_size t))"
    "self_X_train t = Some X" "self_y_train t = Some y" "shape0 X \<le> length y"
    using td by (simp_all add: training_data_def)
  have il: "i \<le> shape0 X" using i by simp
  show ?thesis
    unfolding batch_at_def
    by (rule fetch_batch_yield_result [OF f(1,2) il f(3) refl f(4,5)])
qed

lemma training_data_start:
  assumes td: "training_data X y t"
  shows "fetch_batch_start t
           = (Inr ([0..<shape0 X], range_from 0 (shape0 X) (nat (self_batch_size t))), t)"
proof -
  have f: "self_n_examples t = Some (shape0 X)" "self_batch_size t = int (nat (self_batch_size t))"
    "0 < nat (self_batch_size t)"
    using td by (simp_all add: training_data_def)
  show ?thesis by (rule fetch_batch_start_result [OF f])
qed

lemma batch_at_shape:
  assumes "i < shape0 X" and "0 < bs"
  shows "0 < shape0 (fst (batch_at X y bs i))"
    and "length (snd (batch_at X y bs i)) = shape0 (fst (batch_at X y bs i))"
    and "shape1 (fst (batch_at X y bs i)) = shape1 X"
  using assms by (simp_all add: batch_at_def shape0_def shape1_def)

lemma fetch_batch_list:
  assumes td: "training_data X y s"
  shows "fetch_batch s =
     (Inr (map (batch_at X y (nat (self_batch_size s)))
             (range_from 0 (shape0 X) (nat (self_batch_size s)))), s)"
proof -
  define bs where "bs = nat (self_batch_size s)"
  have "for_each (range_from 0 (shape0 X) bs)
          (\<lambda>i acc. bindM (fetch_batch_yield [0..<shape0 X] i) (\<lambda>b. returnM (acc @ [b]))) [] s
        = (Inr ([] @ map (batch_at X y bs) (range_from 0 (shape0 X) bs)), s)"
  proof (rule for_each_collect)
    fix i assume "i \<in> set (range_from 0 (shape0 X) bs)"
    then have "i < shape0 X" by (rule range_from_le)
    then show "fetch_batch_yield [0..<shape0 X] i s = (Inr (batch_at X y bs i), s)"
      unfolding bs_def by (rule training_data_fetch [OF td])
  qed
  then show ?thesis
    using training_data_start [OF td]
    by (simp add: fetch_batch_def bindM_def bs_def)
qed

lemma fit_epoch_as_batches:
  fixes s :: "'g world"
  assumes td: "training_data X y s"
  shows "fit_epoch e u s =
     bindM (for_each (map (batch_at X y (nat (self_batch_size s)))
                       (range_from 0 (shape0 X) (nat (self_batch_size s))))
              (\<lambda>b total_loss. fit_batch (fst b) (snd b) total_loss) 0)
       (\<lambda>total_loss. if e mod 100 = 0 then print_loss e total_loss else returnM ()) s"
proof -
  define bs where "bs = nat (self_batch_size s)"
  define I where "I = (\<lambda>t :: 'g world. same_config s t)"
  have loop: "for_each (range_from 0 (shape0 X) bs)
          (\<lambda>i acc. bindM (fetch_batch_yield [0..<shape0 X] i)
                      (\<lambda>b. fit_batch (fst b) (snd b) acc)) 0 s
        = for_each (map (batch_at X y bs) (range_from 0 (shape0 X) bs))
            (\<lambda>b acc. fit_batch (fst b) (snd b) acc) 0 s"
  proof (rule for_each_prefetch [where I = I])
    show "I s" by (simp add: I_def same_config_refl)
  next
    fix i and t :: "'g world"
    assume i: "i \<in> set (range_from 0 (shape0 X) bs)" and t: "I t"
    have il: "i < shape0 X" using i by (rule range_from_le)
    have tdt: "training_data X y t" using t td training_data_kept by (auto simp: I_def)
    have "self_batch_size t = self_batch_size s"
      using t by (simp add: I_def same_config_def config_def)
    then show "fetch_batch_yield [0..<shape0 X] i t = (Inr (batch_at X y bs i), t)"
      using training_data_fetch [OF tdt il] by (simp add: bs_def)
  next
    fix i acc and t :: "'g world"
    assume t: "I t"
    have "same_config t (snd (fit_batch (fst (batch_at X y bs i)) (snd (batch_at X y bs i)) acc t))"
      using fit_batch_same_config [unfolded frames_def] by blast
    then show "I (snd (fit_batch (fst (batch_at X y bs i)) (snd (batch_at X y bs i)) acc t))"
      using t same_config_trans unfolding I_def by blast
  qed
  have cp: "(\<lambda>(X_train_b, y_train_b). fit_batch X_train_b y_train_b acc)
       = (\<lambda>b. fit_batch (fst b) (snd b) acc :: ('g, real) py_method)" for acc
    by (simp add: case_prod_unfold)
  show ?thesis
    using training_data_start [OF td] loop
    by (simp add: fit_epoch_def bindM_def cp bs_def)
qed

lemma fit_epoch_succeeds:
  fixes s :: "'g world"
  assumes td: "training_data X y s" and p: "params_ready s"
  shows "\<exists>s'. fit_epoch e u s = (Inr (), s')"
proof -
  define bs where "bs = nat (self_batch_size s)"
  define I where "I = (\<lambda>t :: 'g world. same_config s t \<and> params_ready t)"
  have bs: "0 < bs" using td by (simp add: bs_def training_data_def)
  have step: "\<exists>acc' t'. fit_batch (fst b) (snd b) acc t = (Inr acc', t') \<and> I t'"
    if b: "b \<in> set (map (batch_at X y bs) (range_from 0 (shape0 X) bs))" and t: "I t"
    for b acc and t :: "'g world"
  proof -
    obtain i where i: "i \<in> set (range_from 0 (shape0 X) bs)" and be: "b = batch_at X y bs i"
      using b by auto
    have il: "i < shape0 X" using i by (rule range_from_le)
    have st: "same_config s t" and pt: "params_ready t" using t by (simp_all add: I_def)
    have "training_data X y t" using st td by (rule training_data_kept)
    then have n: "self_n_inputs t = Some (shape1 (fst b))"
      unfolding be batch_at_shape(3) [OF il bs] by (simp add: training_data_def)
    obtain v t' where fb: "fit_batch (fst b) (snd b) acc t = (Inr v, t')"
      using fit_batch_succeeds [OF pt n, of "snd b" acc]
        batch_at_shape(1,2) [OF il bs, of y] unfolding be by blast
    have c: "same_config t t'" using framesD [OF fit_batch_same_config fb] .
    have a: "same_arrays t t'" using framesD [OF fit_batch_same_arrays fb] .
    have "I t'"
      unfolding I_def using same_config_trans [OF st c] params_ready_kept [OF c a pt] by simp
    then show ?thesis using fb by blast
  qed
  have "I s" using p by (simp add: I_def same_config_refl)
  then have "\<exists>acc' s'. for_each (map (batch_at X y bs) (range_from 0 (shape0 X) bs))
       (\<lambda>b total_loss. fit_batch (fst b) (snd b) total_loss) 0 s = (Inr acc', s') \<and> I s'"
    using step by (rule for_each_succeeds)
  then obtain total s2 where loop: "for_each (map (batch_at X y bs) (range_from 0 (shape0 X) bs))
       (\<lambda>b total_loss. fit_batch (fst b) (snd b) total_loss) 0 s = (Inr total, s2)"
    by blast
  show ?thesis
    unfolding fit_epoch_as_batches [OF td] bs_def [symmetric]
    using loop by (simp add: bindM_def print_loss_def returnM_def)
qed

lemma fit_epoch_ready:
  assumes "fit_epoch e u s = (r, s')" and "training_data X y s" and "params_ready s"
  shows "training_data X y s' \<and> params_ready s' \<and> same_config s s'"
proof -
  have c: "same_config s s'" using framesD [OF fit_epoch_same_config assms(1)] .
  have a: "same_arrays s s'" using framesD [OF fit_epoch_same_arrays assms(1)] .
  show ?thesis
    using c training_data_kept [OF c assms(2)] params_ready_kept [OF c a assms(3)] by simp
qed

lemma bindM_Inr:
  "bindM m f s = (Inr r, s') \<Longrightarrow> \<exists>x s1. m s = (Inr x, s1) \<and> f x s1 = (Inr r, s')"
  by (auto simp: bindM_def split: prod.splits sum.splits)

lemma preorder_stdout: "preorder_rel (\<lambda>s s'. stdout s' = stdout s)"
  by (simp add: preorder_rel_def)

lemma optimize_stdout: "frames (\<lambda>s s'. stdout s' = stdout s) (optimize X y)"
  by (simp add: frames_def in_place_fields(5) [OF optimize_in_place])

lemma loss_stdout: "frames (\<lambda>s s'. stdout s' = stdout s) (loss y z)"
  unfolding loss_def Let_def
  by (intro frames_bindM frames_pure preorder_stdout) (simp add: frames_def)

lemma fit_batch_stdout: "frames (\<lambda>s s'. stdout s' = stdout s) (fit_batch X y t)"
  unfolding fit_batch_def
  by (intro frames_bindM frames_pure preorder_stdout optimize_stdout loss_stdout logit_frames)

lemma fit_epoch_stdout:
  assumes "fit_epoch e u s = (Inr (), s')"
  shows "map fst (stdout s') = map fst (stdout s) @ (if e mod 100 = 0 then [e] else [])"
proof -
  obtain p s1 where 1: "fetch_batch_start s = (Inr p, s1)"
    and 2: "(case p of (idx, starts) \<Rightarrow>
              bindM (for_each starts
                (\<lambda>i total_loss. bindM (fetch_batch_yield idx i)
                   (\<lambda>(X_train_b, y_train_b). fit_batch X_train_b y_train_b total_loss)) 0)
              (\<lambda>total_loss. if e mod 100 = 0 then print_loss e total_loss else returnM ())) s1
            = (Inr (), s')"
    using bindM_Inr [OF assms [unfolded fit_epoch_def]] by blast
  obtain idx starts where p: "p = (idx, starts)" by (cases p)
  obtain total s2 where 3: "for_each starts
                (\<lambda>i total_loss. bindM (fetch_batch_yield idx i)
                   (\<lambda>(X_train_b, y_train_b). fit_batch X_train_b y_train_b total_loss)) 0 s1
              = (Inr total, s2)"
    and 4: "(if e mod 100 = 0 then print_loss e total else returnM ()) s2 = (Inr (), s')"
    using bindM_Inr [OF 2 [unfolded p prod.case]] by blast
  have "frames (\<lambda>s s'. stdout s' = stdout s) fetch_batch_start"
    by (rule fetch_frames [OF preorder_stdout])
  from framesD [OF this 1] have a: "stdout s1 = stdout s" .
  have "frames (\<lambda>s s'. stdout s' = stdout s) (for_each starts
                (\<lambda>i total_loss. bindM (fetch_batch_yield idx i)
                   (\<lambda>(X_train_b, y_train_b). fit_batch X_train_b y_train_b total_loss)) 0)"
    by (intro frames_for_each frames_bindM frames_case_prod preorder_stdout fetch_frames
        fit_batch_stdout)
  from framesD [OF this 3] have b: "stdout s2 = stdout s1" .
  show ?thesis
  proof (cases "e mod 100 = 0")
    case True
    then have "s' = s2\<lparr>stdout := stdout s2 @ [(e, total)]\<rparr>"
      using 4 by (simp add: print_loss_def)
    then have "stdout s' = stdout s2 @ [(e, total)]" by simp
    then show ?thesis using True a b by simp
  next
    case False
    then have "s' = s2" using 4 by (simp add: returnM_def)
    then show ?thesis using False a b by simp
  qed
qed

lemma trace_stdout:
  assumes "\<forall>k < n. fit_epoch k () (ss ! k) = (Inr (), ss ! Suc k)" and "k \<le> n"
  shows "map fst (stdout (ss ! k)) = map fst (stdout (ss ! 0)) @ filter (\<lambda>e. e mod 100 = 0) [0..<k]"
  using assms(2)
proof (induction k)
  case 0
  then show ?case by simp
next
  case (Suc k)
  then have "fit_epoch k () (ss ! k) = (Inr (), ss ! Suc k)" using assms(1) by simp
  from fit_epoch_stdout [OF this] Suc show ?case by simp
qed

text \<open>
  Claim C8. With the training data loaded, \<open>fit\<close> creates the weights and then runs
  exactly \<open>n_epochs\<close> epochs, one after the other (none when \<open>n_epochs\<close> is not positive),
  and returns: there is the sequence of the \<open>n_epochs + 1\<close> worlds between the epochs.
  Every epoch is a pass over all batches of \<open>_fetch_batch\<close> in order, whatever the loss
  was; no epoch is skipped and none is added. The learning rate, the number of epochs
  and the batch size are the same in all these worlds, and what is printed is one line
  for each epoch divisible by 100.
\<close>

theorem fit_runs_all_epochs:
  fixes s :: "'g world"
  assumes td: "training_data X y s"
  shows "\<exists>ss. length ss = Suc (nat (self_n_epochs s))
         \<and> create_weights s = (Inr (), ss ! 0)
         \<and> (\<forall>e < nat (self_n_epochs s).
               fit_epoch e () (ss ! e) = (Inr (), ss ! Suc e)
             \<and> fetch_batch (ss ! e) =
                 (Inr (map (batch_at X y (nat (self_batch_size s)))
                         (range_from 0 (shape0 X) (nat (self_batch_size s)))), ss ! e)
             \<and> fit_epoch e () (ss ! e) =
                 bindM (for_each (map (batch_at X y (nat (self_batch_size s)))
                                   (range_from 0 (shape0 X) (nat (self_batch_size s))))
                          (\<lambda>b total_loss. fit_batch (fst b) (snd b) total_loss) 0)
                   (\<lambda>total_loss. if e mod 100 = 0 then print_loss e total_loss else returnM ())
                   (ss ! e))
         \<and> fit s = (Inr (), ss ! nat (self_n_epochs s))
         \<and> (\<forall>t \<in> set ss. self_lr t = self_lr s \<and> self_n_epochs t = self_n_epochs s
               \<and> self_batch_size t = self_batch_size s)
         \<and> map fst (stdout (snd (fit s))) =
             map fst (stdout s) @ filter (\<lambda>e. e mod 100 = 0) [0..<nat (self_n_epochs s)]"
proof -
  define N where "N = nat (self_n_epochs s)"
  obtain n where n: "self_n_inputs s = Some n" using td by (simp add: training_data_def)
  define s1 where "s1 = s\<lparr>self_w := Some (heap_next s), self_b := Some (Suc (heap_next s)),
              heap := (heap s)(heap_next s := replicate n 0, Suc (heap_next s) := [0]),
              heap_next := Suc (Suc (heap_next s))\<rparr>"
  have cw: "create_weights s = (Inr (), s1)"
    unfolding s1_def by (rule create_weights_result [OF n])
  have c1: "same_config s s1" by (simp add: same_config_def config_def s1_def)
  have td1: "training_data X y s1" using c1 td by (rule training_data_kept)
  have p1: "params_ready s1" using n by (simp add: params_ready_def s1_def)
  have o1: "stdout s1 = stdout s" "self_n_epochs s1 = self_n_epochs s" by (simp_all add: s1_def)
  define I where "I = (\<lambda>t :: 'g world. training_data X y t \<and> params_ready t \<and> same_config s t)"
  have I1: "I s1" using td1 p1 c1 by (simp add: I_def)
  have step: "\<exists>t'. fit_epoch e () t = (Inr (), t') \<and> I t'" if "I t" for e and t :: "'g world"
  proof -
    have tdt: "training_data X y t" and pt: "params_ready t" and ct: "same_config s t"
      using that by (simp_all add: I_def)
    obtain t' where ep: "fit_epoch e () t = (Inr (), t')"
      using fit_epoch_succeeds [OF tdt pt] by blast
    have "I t'"
      using fit_epoch_ready [OF ep tdt pt] same_config_trans [OF ct] by (simp add: I_def)
    then show ?thesis using ep by blast
  qed
  have "\<exists>ss. length ss = Suc (length [0..<N]) \<and> ss ! 0 = s1
           \<and> (\<forall>k < length [0..<N]. fit_epoch ([0..<N] ! k) () (ss ! k) = (Inr (), ss ! Suc k))
           \<and> for_each [0..<N] fit_epoch () s1 = (Inr (), ss ! length [0..<N])
           \<and> (\<forall>t \<in> set ss. I t)"
    using I1 step by (rule for_each_trace)
  then obtain ss where len: "length ss = Suc N" and z: "ss ! 0 = s1"
    and ch: "\<forall>k < N. fit_epoch k () (ss ! k) = (Inr (), ss ! Suc k)"
    and fe: "for_each [0..<N] fit_epoch () s1 = (Inr (), ss ! N)"
    and inv: "\<forall>t \<in> set ss. I t"
    by auto
  have ft: "fit s = (Inr (), ss ! N)"
    using fit_unfold [OF cw o1(2)] fe by (simp add: N_def)
  have bs: "self_batch_size t = self_batch_size s" if "I t" for t :: "'g world"
    using that by (simp add: I_def same_config_def config_def)
  have ep: "\<forall>e < N.
               fit_epoch e () (ss ! e) = (Inr (), ss ! Suc e)
             \<and> fetch_batch (ss ! e) =
                 (Inr (map (batch_at X y (nat (self_batch_size s)))
                         (range_from 0 (shape0 X) (nat (self_batch_size s)))), ss ! e)
             \<and> fit_epoch e () (ss ! e) =
                 bindM (for_each (map (batch_at X y (nat (self_batch_size s)))
                                   (range_from 0 (shape0 X) (nat (self_batch_size s))))
                          (\<lambda>b total_loss. fit_batch (fst b) (snd b) total_loss) 0)
                   (\<lambda>total_loss. if e mod 100 = 0 then print_loss e total_loss else returnM ())
                   (ss ! e)"
  proof (intro allI impI)
    fix e assume e: "e < N"
    then have "ss ! e \<in> set ss" using len by simp
    then have i: "I (ss ! e)" using inv by blast
    then have tde: "training_data X y (ss ! e)" by (simp add: I_def)
    show "fit_epoch e () (ss ! e) = (Inr (), ss ! Suc e)
             \<and> fetch_batch (ss ! e) =
                 (Inr (map (batch_at X y (nat (self_batch_size s)))
                         (range_from 0 (shape0 X) (nat (self_batch_size s)))), ss ! e)
             \<and> fit_epoch e () (ss ! e) =
                 bindM (for_each (map (batch_at X y (nat (self_batch_size s)))
                                   (range_from 0 (shape0 X) (nat (self_batch_size s))))
                          (\<lambda>b total_loss. fit_batch (fst b) (snd b) total_loss) 0)
                   (\<lambda>total_loss. if e mod 100 = 0 then print_loss e total_loss else returnM ())
                   (ss ! e)"
      using ch e fetch_batch_list [OF tde] fit_epoch_as_batches [OF tde, of e "()"] bs [OF i]
      by simp
  qed
  have cf: "\<forall>t \<in> set ss. self_lr t = self_lr s \<and> self_n_epochs t = self_n_epochs s
               \<and> self_batch_size t = self_batch_size s"
    using inv by (simp add: I_def same_config_def config_def)
  have "map fst (stdout (ss ! N)) = map fst (stdout (ss ! 0)) @ filter (\<lambda>e. e mod 100 = 0) [0..<N]"
    using ch by (rule trace_stdout) simp
  then have so: "map fst (stdout (snd (fit s))) =
             map fst (stdout s) @ filter (\<lambda>e. e mod 100 = 0) [0..<N]"
    using ft z o1(1) by simp
  show ?thesis
    using len cw [folded z] ep ft cf so unfolding N_def by blast
qed

theorem fit_runs_all_epochs_witness:
  "\<exists>s'. fit ((new_LogisticRegression 64 1 3 () ())
              \<lparr>self_X_train := Some \<lparr>ncols = 1, rows = [[2]]\<rparr>, self_y_train := Some [1],
               self_n_examples := Some 1, self_n_inputs := Some 1\<rparr>) = (Inr (), s')
        \<and> map fst (stdout s') = [0] \<and> self_lr s' = 1 \<and> self_n_epochs s' = 3"
proof -
  define X where "X = \<lparr>ncols = 1, rows = [[2::real]]\<rparr>"
  define s0 :: "unit world" where
    "s0 = (new_LogisticRegression 64 1 3 () ())
         \<lparr>self_X_train := Some X, self_y_train := Some [1],
          self_n_examples := Some 1, self_n_inputs := Some 1\<rparr>"
  have td: "training_data X [1] s0"
    by (simp add: training_data_def s0_def new_LogisticRegression_def X_def shape0_def shape1_def)
  have f: "self_n_epochs s0 = 3" "self_lr s0 = 1" "stdout s0 = []"
    by (simp_all add: s0_def new_LogisticRegression_def)
  from fit_runs_all_epochs [OF td] obtain ss where
    all: "length ss = Suc (nat (self_n_epochs s0))
         \<and> create_weights s0 = (Inr (), ss ! 0)
         \<and> (\<forall>e < nat (self_n_epochs s0).
               fit_epoch e () (ss ! e) = (Inr (), ss ! Suc e)
             \<and> fetch_batch (ss ! e) =
                 (Inr (map (batch_at X [1] (nat (self_batch_size s0)))
                         (range_from 0 (shape0 X) (nat (self_batch_size s0)))), ss ! e)
             \<and> fit_epoch e () (ss ! e) =
                 bindM (for_each (map (batch_at X [1] (nat (self_batch_size s0)))
                                   (range_from 0 (shape0 X) (nat (self_batch_size s0))))
                          (\<lambda>b total_loss. fit_batch (fst b) (snd b) total_loss) 0)
                   (\<lambda>total_loss. if e mod 100 = 0 then print_loss e total_loss else returnM ())
                   (ss ! e))
         \<and> fit s0 = (Inr (), ss ! nat (self_n_epochs s0))
         \<and> (\<forall>t \<in> set ss. self_lr t = self_lr s0 \<and> self_n_epochs t = self_n_epochs s0
               \<and> self_batch_size t = self_batch_size s0)
         \<and> map fst (stdout (snd (fit s0))) =
             map fst (stdout s0) @ filter (\<lambda>e. e mod 100 = 0) [0..<nat (self_n_epochs s0)]"
    ..
  note len = all [THEN conjunct1]
  note ft = all [THEN conjunct2, THEN conjunct2, THEN conjunct2, THEN conjunct1]
  note cf = all [THEN conjunct2, THEN conjunct2, THEN conjunct2, THEN conjunct2, THEN conjunct1]
  note so = all [THEN conjunct2, THEN conjunct2, THEN conjunct2, THEN conjunct2, THEN conjunct2]
  define t3 where "t3 = ss ! nat (self_n_epochs s0)"
  have "t3 \<in> set ss" unfolding t3_def using len by simp
  then have c3: "self_lr t3 = 1" "self_n_epochs t3 = 3" using cf f(1,2) by auto
  have ft3: "fit s0 = (Inr (), t3)" using ft by (simp add: t3_def)
  have fl: "filter (\<lambda>e. e mod 100 = 0) [0..<nat (self_n_epochs s0)] = [0::nat]"
    unfolding f(1) by (simp add: upt_rec numeral_3_eq_3)
  have "map fst (stdout t3) = [0]"
    using so unfolding fl ft3 f(3) by simp
  with c3 ft3 have "fit s0 = (Inr (), t3) \<and> map fst (stdout t3) = [0]
      \<and> self_lr t3 = 1 \<and> self_n_epochs t3 = 3"
    by simp
  then have "\<exists>s'. fit s0 = (Inr (), s') \<and> map fst (stdout s') = [0]
      \<and> self_lr s' = 1 \<and> self_n_epochs s' = 3"
    by (rule exI [of _ t3])
  then show ?thesis unfolding s0_def X_def .
qed

end
